theory Spec2Isabelle
  imports Complex_Main "HOL-Library.Word"
begin

section \<open>Strings\<close>

text \<open>
  A Go \<^verbatim>\<open>string\<close> is a sequence of bytes; it is modelled as a \<^typ>\<open>string\<close>
  (a list of 8-bit characters).

  \<^verbatim>\<open>strings.Split(s, sep)\<close> is called in this program with a one-byte separator only
  (\<^verbatim>\<open>"."\<close> in \<^verbatim>\<open>ValidateJWS\<close>, \<^verbatim>\<open>" "\<close> in \<^verbatim>\<open>HasScope\<close> and \<^verbatim>\<open>Authenticate\<close>), so the
  separator is a single character here. The result always has one more element than
  the input has separators; in particular the empty string gives one empty segment.
\<close>

fun strings_Split :: "string \<Rightarrow> char \<Rightarrow> string list" where
  "strings_Split [] sep = [[]]"
| "strings_Split (x # xs) sep =
     (if x = sep then [] # strings_Split xs sep
      else (case strings_Split xs sep of
              [] \<Rightarrow> [[x]]
            | p # ps \<Rightarrow> (x # p) # ps))"

text \<open>
  The inverse reading used to say what "the substrings obtained by splitting" are:
  segments free of the separator, joined again with one separator between neighbours.
\<close>

fun strings_Join :: "string list \<Rightarrow> char \<Rightarrow> string" where
  "strings_Join [] sep = []"
| "strings_Join [p] sep = p"
| "strings_Join (p # q # ps) sep = p @ sep # strings_Join (q # ps) sep"

section \<open>Claims and scopes (internal/auth/jwt.go)\<close>

text \<open>
  \<^verbatim>\<open>uuid.UUID\<close> is an array of 16 bytes; it is kept as the 128-bit number they spell
  (first byte most significant), whose order is the order of the database's key.
  The embedded \<^verbatim>\<open>jwt.RegisteredClaims\<close> of \<^verbatim>\<open>Claims\<close> are never set on the JWS path and
  are left out.
\<close>

type_synonym uuid = nat

record Claims =
  UserID :: uuid
  Email :: string
  Scope :: string

text \<open>The loop of \<^verbatim>\<open>HasScope\<close> over the segments: return true at the first equal one.\<close>

fun scope_loop :: "string list \<Rightarrow> string \<Rightarrow> bool" where
  "scope_loop [] requiredScope = False"
| "scope_loop (scope # scopes) requiredScope =
     (if scope = requiredScope then True else scope_loop scopes requiredScope)"

definition HasScope :: "Claims \<Rightarrow> string \<Rightarrow> bool" where
  "HasScope claims requiredScope =
     (if Scope claims = [] then False
      else scope_loop (strings_Split (Scope claims) (CHR '' '')) requiredScope)"

section \<open>Time (package time)\<close>

text \<open>
  A \<^verbatim>\<open>time.Time\<close> is modelled as the instant it denotes: an integer number of
  nanoseconds since the Unix epoch. A \<^verbatim>\<open>time.Duration\<close> is a number of nanoseconds.
  The bounded range of Go's representation is not modelled for instants: in particular
  \<^verbatim>\<open>time.Unix(sec, 0)\<close> is \<open>sec\<close> seconds after the epoch for every \<open>sec\<close>, where Go adds
  62135596800 to \<open>sec\<close> in 64 bits and wraps when \<open>sec\<close> is within that distance of
  \<open>2\<^sup>6\<^sup>3\<close> (some 292 billion years ahead). The 64-bit wrap-around of the one
  multiplication the program performs on a duration (\<^verbatim>\<open>config.Load\<close>) is written out.
  Every call of \<^verbatim>\<open>time.Now()\<close> is a parameter of the function that makes it.
\<close>

type_synonym time = int
type_synonym duration = int

definition time_Second :: duration where "time_Second = 1000000000"
definition time_Minute :: duration where "time_Minute = 60 * time_Second"
definition time_Hour :: duration where "time_Hour = 60 * time_Minute"

text \<open>\<^verbatim>\<open>t.Add(d)\<close>, \<^verbatim>\<open>t.Unix()\<close> (whole seconds, rounded down), \<^verbatim>\<open>time.Unix(sec, 0)\<close>
  and \<^verbatim>\<open>t.Before(u)\<close>.\<close>

definition time_Add :: "time \<Rightarrow> duration \<Rightarrow> time" where
  "time_Add t d = t + d"

definition time_to_Unix :: "time \<Rightarrow> int" where
  "time_to_Unix t = t div time_Second"

definition time_Unix :: "int \<Rightarrow> time" where
  "time_Unix sec = sec * time_Second"

definition time_Before :: "time \<Rightarrow> time \<Rightarrow> bool" where
  "time_Before t u \<longleftrightarrow> t < u"

text \<open>The zero value of \<^verbatim>\<open>time.Time\<close>: January 1 of year 1, 00:00 UTC.\<close>

definition zero_Time :: time where
  "zero_Time = - 62135596800 * time_Second"

section \<open>Configuration (internal/config/config.go)\<close>

record JWTConfig =
  Secret :: string
  Issuer :: string
  Audience :: string
  Expiration :: duration

record OAuthConfig =
  ClientID :: string
  ClientSecret :: string
  RedirectURI :: string

text \<open>
  \<^verbatim>\<open>Load\<close> sets \<^verbatim>\<open>Expiration: time.Duration(expiration) * time.Hour\<close>, where
  \<^verbatim>\<open>expiration\<close> is the integer read from \<^verbatim>\<open>JWT_EXPIRATION_HOURS\<close> (24 when the
  variable is unset, 0 when it does not parse). The product is a signed 64-bit one.
\<close>

definition Load_Expiration :: "int \<Rightarrow> duration" where
  "Load_Expiration expiration =
     sint ((word_of_int expiration :: 64 word) * word_of_int time_Hour)"

section \<open>Errors and dynamic values\<close>

text \<open>
  An \<^verbatim>\<open>error\<close> made by \<^verbatim>\<open>fmt.Errorf\<close> is its message. The errors of the libraries
  are values of their own: base64's \<^verbatim>\<open>CorruptInputError\<close> (its byte offset is not
  kept), whatever \<^verbatim>\<open>encoding/json\<close> reports, and the error of a failed store statement.
\<close>

datatype error = Errorf string | CorruptInputError | JSONError string | StoreError

text \<open>
  The values held by a \<^verbatim>\<open>map[string]interface{}\<close>. \<^verbatim>\<open>GenerateJWS\<close> stores strings and
  \<^verbatim>\<open>int64\<close>s; \<^verbatim>\<open>json.Unmarshal\<close> produces strings, \<^verbatim>\<open>float64\<close>s, booleans, nil, slices
  and maps. A finite \<^verbatim>\<open>float64\<close> is kept as the rational number it denotes.
\<close>

datatype gvalue =
    GString string
  | GInt64 int
  | GFloat64 rat
  | GBool bool
  | GNil
  | GSlice "gvalue list"
  | GMap "(string \<times> gvalue) list"

text \<open>
  The conversion \<^verbatim>\<open>int64(x)\<close> of a \<^verbatim>\<open>float64\<close>: the fraction is discarded (rounding
  toward zero). For a value outside the range of \<^verbatim>\<open>int64\<close> the language leaves the
  result to the implementation; the value taken here is the one of amd64.
\<close>

definition int64_of_float64 :: "rat \<Rightarrow> int" where
  "int64_of_float64 x =
     (let t = (if 0 \<le> x then \<lfloor>x\<rfloor> else \<lceil>x\<rceil>)
      in if - (2 ^ 63) \<le> t \<and> t < 2 ^ 63 then t else - (2 ^ 63))"

section \<open>Libraries outside the repository\<close>

text \<open>
  HMAC-SHA256, \<^verbatim>\<open>encoding/json\<close> and \<^verbatim>\<open>github.com/google/uuid\<close> are not part of
  the repository. They are parameters of the model: every function below that calls
  one of them takes the record \<open>L\<close> of these functions.
  \<^item> \<open>hmac_sha256 key message\<close>: the 32 bytes of the MAC;
  \<^item> \<open>json_Marshal m\<close>: the JSON text of a map, or an error;
  \<^item> \<open>json_Unmarshal bytes\<close>: the map decoded into a \<^verbatim>\<open>map[string]interface{}\<close>
    (a \<^verbatim>\<open>null\<close> document leaves the map nil, which reads as the empty map), or an error;
  \<^item> \<open>uuid_String u\<close> and \<open>uuid_Parse s\<close>: printing and parsing an identifier.
\<close>

record ext =
  hmac_sha256 :: "string \<Rightarrow> string \<Rightarrow> string"
  json_Marshal :: "(string \<rightharpoonup> gvalue) \<Rightarrow> error + string"
  json_Unmarshal :: "string \<Rightarrow> error + (string \<rightharpoonup> gvalue)"
  uuid_String :: "uuid \<Rightarrow> string"
  uuid_Parse :: "string \<Rightarrow> error + uuid"

subsection \<open>base64.RawURLEncoding\<close>

text \<open>
  The URL-safe alphabet \<^verbatim>\<open>A-Z a-z 0-9 - _\<close> without padding. Encoding turns each group
  of three bytes into four characters, and a last group of one or two bytes into two
  or three characters. Decoding skips \<^verbatim>\<open>\r\<close> and \<^verbatim>\<open>\n\<close>, rejects every other character
  outside the alphabet and a last group of one character, and ignores the unused low
  bits of a last group.
\<close>

definition enc6 :: "nat \<Rightarrow> char" where
  "enc6 i =
     (if i < 26 then char_of (i + 65)
      else if i < 52 then char_of (i + 71)
      else if i < 62 then char_of (i - 4)
      else if i = 62 then CHR ''-'' else CHR ''_'')"

definition dec6 :: "char \<Rightarrow> nat option" where
  "dec6 c =
     (let n = (of_char c :: nat) in
      if 65 \<le> n \<and> n \<le> 90 then Some (n - 65)
      else if 97 \<le> n \<and> n \<le> 122 then Some (n - 71)
      else if 48 \<le> n \<and> n \<le> 57 then Some (n + 4)
      else if c = CHR ''-'' then Some 62
      else if c = CHR ''_'' then Some 63
      else None)"

fun sextets :: "string \<Rightarrow> nat list" where
  "sextets (a # b # c # rest) =
     (let val = of_char a * 65536 + of_char b * 256 + of_char c
      in val div 262144 mod 64 # val div 4096 mod 64 # val div 64 mod 64 # val mod 64 #
         sextets rest)"
| "sextets [a, b] =
     (let val = of_char a * 65536 + of_char b * 256
      in [val div 262144 mod 64, val div 4096 mod 64, val div 64 mod 64])"
| "sextets [a] =
     (let val = of_char a * 65536
      in [val div 262144 mod 64, val div 4096 mod 64])"
| "sextets [] = []"

definition EncodeToString :: "string \<Rightarrow> string" where
  "EncodeToString src = map enc6 (sextets src)"

fun octets :: "nat list \<Rightarrow> error + string" where
  "octets (a # b # c # d # rest) =
     (let val = a * 262144 + b * 4096 + c * 64 + d in
      case octets rest of
        Inl e \<Rightarrow> Inl e
      | Inr bs \<Rightarrow>
          Inr (char_of (val div 65536) # char_of (val div 256 mod 256) # char_of (val mod 256) # bs))"
| "octets [a, b, c] =
     (let val = a * 262144 + b * 4096 + c * 64
      in Inr [char_of (val div 65536), char_of (val div 256 mod 256)])"
| "octets [a, b] =
     (let val = a * 262144 + b * 4096
      in Inr [char_of (val div 65536)])"
| "octets [a] = Inl CorruptInputError"
| "octets [] = Inr []"

fun dec6s :: "string \<Rightarrow> nat list option" where
  "dec6s [] = Some []"
| "dec6s (c # cs) =
     (if c = CHR 0x0A \<or> c = CHR 0x0D then dec6s cs
      else case dec6 c of
        None \<Rightarrow> None
      | Some v \<Rightarrow> (case dec6s cs of None \<Rightarrow> None | Some vs \<Rightarrow> Some (v # vs)))"

definition DecodeString :: "string \<Rightarrow> error + string" where
  "DecodeString s =
     (case dec6s s of
        None \<Rightarrow> Inl CorruptInputError
      | Some vs \<Rightarrow> octets vs)"

text \<open>\<^verbatim>\<open>base64.URLEncoding\<close> is the same alphabet with \<^verbatim>\<open>=\<close> padding to a multiple of four.\<close>

definition URLEncoding_EncodeToString :: "string \<Rightarrow> string" where
  "URLEncoding_EncodeToString src =
     EncodeToString src @ replicate ((3 - length src mod 3) mod 3) (CHR ''='')"

section \<open>Signed tokens (internal/auth/jwt.go)\<close>

record User =
  user_ID :: uuid
  user_Email :: string
  user_PasswordHash :: string
  user_CreatedAt :: time
  user_UpdatedAt :: time

definition sign :: "ext \<Rightarrow> JWTConfig \<Rightarrow> string \<Rightarrow> string" where
  "sign L cfg input = EncodeToString (hmac_sha256 L (Secret cfg) input)"

definition jws_header :: "string \<rightharpoonup> gvalue" where
  "jws_header = [''alg'' \<mapsto> GString ''HS256'', ''typ'' \<mapsto> GString ''JWT'']"

definition jws_payload :: "ext \<Rightarrow> JWTConfig \<Rightarrow> time \<Rightarrow> User \<Rightarrow> string \<Rightarrow> (string \<rightharpoonup> gvalue)" where
  "jws_payload L cfg now user scope =
     [''sub'' \<mapsto> GString (uuid_String L (user_ID user)),
      ''email'' \<mapsto> GString (user_Email user),
      ''scope'' \<mapsto> GString scope,
      ''iss'' \<mapsto> GString (Issuer cfg),
      ''aud'' \<mapsto> GString (Audience cfg),
      ''exp'' \<mapsto> GInt64 (time_to_Unix (time_Add now (Expiration cfg))),
      ''iat'' \<mapsto> GInt64 (time_to_Unix now),
      ''nbf'' \<mapsto> GInt64 (time_to_Unix now)]"

text \<open>\<^verbatim>\<open>GenerateJWS\<close>; \<open>now\<close> is its reading of the clock.\<close>

definition GenerateJWS :: "ext \<Rightarrow> JWTConfig \<Rightarrow> time \<Rightarrow> User \<Rightarrow> string \<Rightarrow> error + string" where
  "GenerateJWS L cfg now user scope =
     (case json_Marshal L jws_header of
        Inl err \<Rightarrow> Inl err
      | Inr headerJSON \<Rightarrow>
          (case json_Marshal L (jws_payload L cfg now user scope) of
             Inl err \<Rightarrow> Inl err
           | Inr payloadJSON \<Rightarrow>
               (let headerB64 = EncodeToString headerJSON;
                    payloadB64 = EncodeToString payloadJSON;
                    signingInput = headerB64 @ ''.'' @ payloadB64;
                    signature = sign L cfg signingInput
                in Inr (signingInput @ ''.'' @ signature))))"

text \<open>
  The expiry check of \<^verbatim>\<open>ValidateJWS\<close>: only a \<^verbatim>\<open>float64\<close> under \<^verbatim>\<open>"exp"\<close> is looked at;
  \<open>now\<close> is the reading of the clock made in that case.
\<close>

definition exp_passed :: "(string \<rightharpoonup> gvalue) \<Rightarrow> time \<Rightarrow> bool" where
  "exp_passed payload now =
     (case payload ''exp'' of
        Some (GFloat64 exp') \<Rightarrow> time_Before (time_Unix (int64_of_float64 exp')) now
      | _ \<Rightarrow> False)"

text \<open>A failed type assertion \<^verbatim>\<open>payload[k].(string)\<close> whose \<^verbatim>\<open>ok\<close> is dropped gives \<^verbatim>\<open>""\<close>.\<close>

definition string_or_empty :: "gvalue option \<Rightarrow> string" where
  "string_or_empty v = (case v of Some (GString s) \<Rightarrow> s | _ \<Rightarrow> [])"

definition extract_claims :: "ext \<Rightarrow> (string \<rightharpoonup> gvalue) \<Rightarrow> error + Claims" where
  "extract_claims L payload =
     (case payload ''sub'' of
        Some (GString userIDStr) \<Rightarrow>
          (case uuid_Parse L userIDStr of
             Inl err \<Rightarrow> Inl (Errorf ''invalid user ID format'')
           | Inr userID \<Rightarrow>
               Inr \<lparr>UserID = userID,
                    Email = string_or_empty (payload ''email''),
                    Scope = string_or_empty (payload ''scope'')\<rparr>)
      | _ \<Rightarrow> Inl (Errorf ''invalid user ID in token''))"

definition ValidateJWS :: "ext \<Rightarrow> JWTConfig \<Rightarrow> time \<Rightarrow> string \<Rightarrow> error + Claims" where
  "ValidateJWS L cfg now jws =
     (case strings_Split jws (CHR ''.'') of
        [headerB64, payloadB64, signatureB64] \<Rightarrow>
          (let signingInput = headerB64 @ ''.'' @ payloadB64;
               expectedSignature = sign L cfg signingInput
           in if signatureB64 \<noteq> expectedSignature then Inl (Errorf ''invalid signature'')
              else (case DecodeString payloadB64 of
                      Inl err \<Rightarrow> Inl err
                    | Inr payloadBytes \<Rightarrow>
                        (case json_Unmarshal L payloadBytes of
                           Inl err \<Rightarrow> Inl err
                         | Inr payload \<Rightarrow>
                             if exp_passed payload now then Inl (Errorf ''token expired'')
                             else extract_claims L payload)))
      | _ \<Rightarrow> Inl (Errorf ''invalid JWS format''))"

text \<open>The part of \<^verbatim>\<open>ValidateJWS\<close> after the split and the signature comparison, under a
  name of its own for the statements below.\<close>

definition after_signature :: "ext \<Rightarrow> time \<Rightarrow> string \<Rightarrow> error + Claims" where
  "after_signature L now payloadB64 =
     (case DecodeString payloadB64 of
        Inl err \<Rightarrow> Inl err
      | Inr payloadBytes \<Rightarrow>
          (case json_Unmarshal L payloadBytes of
             Inl err \<Rightarrow> Inl err
           | Inr payload \<Rightarrow>
               if exp_passed payload now then Inl (Errorf ''token expired'')
               else extract_claims L payload))"

text \<open>
  The round trip of \<^verbatim>\<open>encoding/json\<close> on a map of strings and \<^verbatim>\<open>int64\<close>s, as far as it is
  used: \<^verbatim>\<open>json.Unmarshal\<close> reads the text written by \<^verbatim>\<open>json.Marshal\<close> back into a map
  with the same keys, the same strings, and every integer as the \<^verbatim>\<open>float64\<close> of the same
  value (exact up to \<open>2\<^sup>5\<^sup>3\<close>, as Unix seconds are). \<open>json_view m\<close> is that map. Whether
  the library does so at a given map is a hypothesis where it is needed.
\<close>

definition as_read_back :: "gvalue \<Rightarrow> gvalue" where
  "as_read_back v = (case v of GInt64 n \<Rightarrow> GFloat64 (of_int n) | _ \<Rightarrow> v)"

definition json_view :: "(string \<rightharpoonup> gvalue) \<Rightarrow> (string \<rightharpoonup> gvalue)" where
  "json_view m = (\<lambda>k. map_option as_read_back (m k))"

section \<open>The store (internal/models, gorm)\<close>

record AuthorizationCode =
  code_ID :: uuid
  code_Code :: string
  code_UserID :: uuid
  code_ClientID :: string
  code_Scope :: string
  code_ExpiresAt :: time
  code_CreatedAt :: time

record AccessToken =
  token_ID :: uuid
  token_Token :: string
  token_UserID :: uuid
  token_ClientID :: string
  token_Scope :: string
  token_ExpiresAt :: time
  token_CreatedAt :: time

record DB =
  authorization_codes :: "AuthorizationCode list"
  access_tokens :: "AccessToken list"
  users :: "User list"

text \<open>
  \<^verbatim>\<open>db.Where(cond).First(&row)\<close> reads the row with the least primary key among those
  that satisfy the condition. It reports an error when there is none, and when the
  store fails; the callers do not tell the two apart, so both are \<open>None\<close> here. Whether
  the store executes a statement is a parameter \<open>ok\<close> of each call.
\<close>

definition db_Where_First :: "bool \<Rightarrow> ('r \<Rightarrow> uuid) \<Rightarrow> ('r \<Rightarrow> bool) \<Rightarrow> 'r list \<Rightarrow> 'r option" where
  "db_Where_First ok key cond rows =
     (if \<not> ok then None
      else case filter cond rows of
             [] \<Rightarrow> None
           | m # ms \<Rightarrow> Some (arg_min_list key (m # ms)))"

text \<open>\<^verbatim>\<open>db.Delete(&authCode)\<close> deletes by primary key; its result is dropped by the caller.\<close>

definition db_Delete_code :: "bool \<Rightarrow> AuthorizationCode \<Rightarrow> DB \<Rightarrow> DB" where
  "db_Delete_code ok authCode db =
     (if \<not> ok then db
      else db\<lparr>authorization_codes :=
                filter (\<lambda>r. code_ID r \<noteq> code_ID authCode) (authorization_codes db)\<rparr>)"

text \<open>
  \<^verbatim>\<open>db.Create(accessToken)\<close>: the \<^verbatim>\<open>BeforeCreate\<close> hook gives a fresh identifier to a row
  whose \<^verbatim>\<open>ID\<close> is \<^verbatim>\<open>uuid.Nil\<close>, gorm stamps \<^verbatim>\<open>CreatedAt\<close>, and the insert fails when the
  store fails or when the primary key or the unique \<^verbatim>\<open>token\<close> column is taken.
\<close>

record create_env =
  executes :: bool
  fresh_ID :: uuid
  stamp :: time

definition db_Create_token :: "create_env \<Rightarrow> AccessToken \<Rightarrow> DB \<Rightarrow> error + AccessToken \<times> DB" where
  "db_Create_token env row db =
     (let row' = row\<lparr>token_ID := (if token_ID row = 0 then fresh_ID env else token_ID row),
                     token_CreatedAt := stamp env\<rparr>
      in if \<not> executes env
            \<or> token_ID row' \<in> token_ID ` set (access_tokens db)
            \<or> token_Token row' \<in> token_Token ` set (access_tokens db)
         then Inl StoreError
         else Inr (row', db\<lparr>access_tokens := access_tokens db @ [row']\<rparr>))"

text \<open>The same for an authorization code, whose \<^verbatim>\<open>code\<close> column is unique.\<close>

definition db_Create_code ::
  "create_env \<Rightarrow> AuthorizationCode \<Rightarrow> DB \<Rightarrow> error + AuthorizationCode \<times> DB" where
  "db_Create_code env row db =
     (let row' = row\<lparr>code_ID := (if code_ID row = 0 then fresh_ID env else code_ID row),
                     code_CreatedAt := stamp env\<rparr>
      in if \<not> executes env
            \<or> code_ID row' \<in> code_ID ` set (authorization_codes db)
            \<or> code_Code row' \<in> code_Code ` set (authorization_codes db)
         then Inl StoreError
         else Inr (row', db\<lparr>authorization_codes := authorization_codes db @ [row']\<rparr>))"

text \<open>The unique index on \<^verbatim>\<open>authorization_codes.code\<close>, as a property of a store.\<close>

definition codes_unique :: "DB \<Rightarrow> bool" where
  "codes_unique db \<longleftrightarrow> distinct (map code_Code (authorization_codes db))"

section \<open>Authorization codes and access tokens (OAuthManager)\<close>

text \<open>
  \<^verbatim>\<open>CreateAuthorizationCode\<close>: \<open>random\<close> is the result of \<^verbatim>\<open>rand.Read\<close> on 32 bytes (the bytes,
  or its error), \<open>now\<close> the reading of the clock.
\<close>

definition CreateAuthorizationCode ::
  "error + string \<Rightarrow> time \<Rightarrow> create_env \<Rightarrow> DB \<Rightarrow> uuid \<Rightarrow> string \<Rightarrow> string \<Rightarrow>
     error + AuthorizationCode \<times> DB" where
  "CreateAuthorizationCode random now env db userID clientID scope =
     (case random of
        Inl err \<Rightarrow> Inl err
      | Inr codeBytes \<Rightarrow>
          db_Create_code env
            \<lparr>code_ID = 0, code_Code = URLEncoding_EncodeToString codeBytes,
             code_UserID = userID, code_ClientID = clientID, code_Scope = scope,
             code_ExpiresAt = time_Add now (10 * time_Minute),
             code_CreatedAt = zero_Time\<rparr> db)"

text \<open>
  \<^verbatim>\<open>ValidateAuthorizationCode\<close>: \<open>now\<close> is its reading of the clock, \<open>find_ok\<close> and
  \<open>delete_ok\<close> say whether the store executes the query and the delete. The result
  is the returned pair together with the store afterwards.
\<close>

definition ValidateAuthorizationCode ::
  "OAuthConfig \<Rightarrow> time \<Rightarrow> bool \<Rightarrow> bool \<Rightarrow> DB \<Rightarrow> string \<Rightarrow> string \<Rightarrow> string \<Rightarrow>
     (error + AuthorizationCode) \<times> DB" where
  "ValidateAuthorizationCode cfg now find_ok delete_ok db code clientID clientSecret =
     (case db_Where_First find_ok code_ID
             (\<lambda>r. code_Code r = code \<and> code_ClientID r = clientID \<and> now < code_ExpiresAt r)
             (authorization_codes db) of
        None \<Rightarrow> (Inl (Errorf ''invalid or expired authorization code''), db)
      | Some authCode \<Rightarrow>
          if clientSecret \<noteq> ClientSecret cfg then (Inl (Errorf ''invalid client secret''), db)
          else (Inr authCode, db_Delete_code delete_ok authCode db))"

text \<open>
  \<^verbatim>\<open>CreateAccessToken\<close>: \<open>now_jws\<close> is the reading of the clock made inside
  \<^verbatim>\<open>GenerateJWS\<close>, \<open>now_rec\<close> the later one made for the record's \<^verbatim>\<open>ExpiresAt\<close>.
\<close>

definition CreateAccessToken ::
  "ext \<Rightarrow> JWTConfig \<Rightarrow> time \<Rightarrow> time \<Rightarrow> create_env \<Rightarrow> DB \<Rightarrow> uuid \<Rightarrow> string \<Rightarrow> string \<Rightarrow>
     error + AccessToken \<times> DB" where
  "CreateAccessToken L cfg now_jws now_rec env db userID clientID scope =
     (let user = \<lparr>user_ID = userID, user_Email = [], user_PasswordHash = [],
                  user_CreatedAt = zero_Time, user_UpdatedAt = zero_Time\<rparr>
      in case GenerateJWS L cfg now_jws user scope of
           Inl err \<Rightarrow> Inl err
         | Inr tokenString \<Rightarrow>
             db_Create_token env
               \<lparr>token_ID = 0, token_Token = tokenString, token_UserID = userID,
                token_ClientID = clientID, token_Scope = scope,
                token_ExpiresAt = time_Add now_rec (24 * time_Hour),
                token_CreatedAt = zero_Time\<rparr> db)"

section \<open>The request authorizer (internal/auth/middleware.go)\<close>

text \<open>
  What a handler leaves in the \<^verbatim>\<open>gin.Context\<close>: the JSON response it wrote (status and
  the text under \<^verbatim>\<open>"error"\<close>), whether it aborted the chain, the values it bound with
  \<^verbatim>\<open>c.Set\<close>, and whether it called \<^verbatim>\<open>c.Next()\<close>.
\<close>

datatype ctx_value = CUser User | CClaims Claims | CAccessToken AccessToken

record Context =
  written :: "(nat \<times> string) option"
  aborted :: bool
  keys :: "string \<rightharpoonup> ctx_value"
  next_called :: bool

definition StatusUnauthorized :: nat where "StatusUnauthorized = 401"

definition abort_JSON :: "nat \<Rightarrow> string \<Rightarrow> Context" where
  "abort_JSON status msg =
     \<lparr>written = Some (status, msg), aborted = True, keys = Map.empty, next_called = False\<rparr>"

text \<open>The message \<^verbatim>\<open>Invalid authorization header format. Use 'Bearer <token>'\<close>.\<close>

definition bad_header_format :: string where
  "bad_header_format =
     ''Invalid authorization header format. Use '' @ [CHR 0x27] @ ''Bearer <token>'' @ [CHR 0x27]"

text \<open>
  \<^verbatim>\<open>Authenticate\<close>: \<open>now\<close> is the clock read by \<^verbatim>\<open>ValidateJWS\<close>, \<open>db_now\<close> the value of
  \<^verbatim>\<open>NOW()\<close> in the store, \<open>token_ok\<close> and \<open>user_ok\<close> say whether the store executes the
  two queries; \<open>authHeader\<close> is the \<^verbatim>\<open>Authorization\<close> header (\<^verbatim>\<open>""\<close> when absent).
\<close>

definition Authenticate ::
  "ext \<Rightarrow> JWTConfig \<Rightarrow> time \<Rightarrow> time \<Rightarrow> bool \<Rightarrow> bool \<Rightarrow> DB \<Rightarrow> string \<Rightarrow> Context" where
  "Authenticate L cfg now db_now token_ok user_ok db authHeader =
     (if authHeader = [] then abort_JSON StatusUnauthorized ''Authorization header required''
      else case strings_Split authHeader (CHR '' '') of
        [bearer, tokenString] \<Rightarrow>
          if bearer \<noteq> ''Bearer''
          then abort_JSON StatusUnauthorized bad_header_format
          else (case ValidateJWS L cfg now tokenString of
             Inl err \<Rightarrow> abort_JSON StatusUnauthorized ''Invalid or expired token''
           | Inr claims \<Rightarrow>
               (case db_Where_First token_ok token_ID
                       (\<lambda>r. token_Token r = tokenString \<and> db_now < token_ExpiresAt r)
                       (access_tokens db) of
                  None \<Rightarrow> abort_JSON StatusUnauthorized ''Token not found or expired''
                | Some accessToken \<Rightarrow>
                    (case db_Where_First user_ok user_ID (\<lambda>u. user_ID u = UserID claims)
                            (users db) of
                       None \<Rightarrow> abort_JSON StatusUnauthorized ''User not found''
                     | Some user \<Rightarrow>
                         \<lparr>written = None, aborted = False,
                          keys = [''user'' \<mapsto> CUser user, ''claims'' \<mapsto> CClaims claims,
                                  ''access_token'' \<mapsto> CAccessToken accessToken],
                          next_called = True\<rparr>)))
      | _ \<Rightarrow> abort_JSON StatusUnauthorized bad_header_format)"

section \<open>Sample values\<close>

text \<open>
  Concrete values for the examples below: the default configuration of \<^verbatim>\<open>config.Load\<close>,
  one user identifier, and a record \<open>sample_ext\<close> of library functions that has the
  values of the real libraries at the arguments the examples use (the JSON texts, the
  printed identifier and the HMAC-SHA256 values of the three signing inputs under the
  default secret) and an error or an empty value everywhere else.
\<close>

definition sample_cfg :: JWTConfig where
  "sample_cfg =
     \<lparr>Secret = ''your-super-secret-jwt-key'', Issuer = ''ishare-task-api'',
      Audience = ''ishare-clients'', Expiration = 24 * time_Hour\<rparr>"

definition sample_oauth :: OAuthConfig where
  "sample_oauth =
     \<lparr>ClientID = ''test-client'', ClientSecret = ''test-secret'',
      RedirectURI = ''http://localhost:8080/oauth/callback''\<rparr>"

definition sample_uuid :: uuid where
  "sample_uuid = 0x123e4567e89b12d3a456426614174000"

definition sample_uuid_text :: string where
  "sample_uuid_text = ''123e4567-e89b-12d3-a456-426614174000''"

definition sample_scope :: string where
  "sample_scope = ''tasks:read tasks:write''"

definition sample_header_json :: string where
  \<open>sample_header_json = ''{"alg":"HS256","typ":"JWT"}''\<close>

text \<open>The payload of a token issued at second 1700000000 for 24 hours, the same for one
  hour, and a payload without \<^verbatim>\<open>exp\<close>.\<close>

definition sample_payload_json :: string where
  \<open>sample_payload_json = ''{"aud":"ishare-clients","email":"","exp":1700086400,"iat":1700000000,"iss":"ishare-task-api","nbf":1700000000,"scope":"tasks:read tasks:write","sub":"123e4567-e89b-12d3-a456-426614174000"}''\<close>

definition sample_payload_1h_json :: string where
  \<open>sample_payload_1h_json = ''{"aud":"ishare-clients","email":"","exp":1700003600,"iat":1700000000,"iss":"ishare-task-api","nbf":1700000000,"scope":"tasks:read tasks:write","sub":"123e4567-e89b-12d3-a456-426614174000"}''\<close>

definition sample_payload_noexp_json :: string where
  \<open>sample_payload_noexp_json = ''{"scope":"tasks:read","sub":"123e4567-e89b-12d3-a456-426614174000"}''\<close>

definition signing_input :: "string \<Rightarrow> string" where
  "signing_input payloadJSON =
     EncodeToString sample_header_json @ ''.'' @ EncodeToString payloadJSON"

definition sample_hmac :: "string \<Rightarrow> string \<Rightarrow> string" where
  "sample_hmac key message =
     (if key = ''your-super-secret-jwt-key'' \<and> message = signing_input sample_payload_json then
        [CHR 0x45, CHR 0x67, CHR 0x69, CHR 0x69, CHR 0x3C, CHR 0x65, CHR 0x06, CHR 0x39,
      CHR 0x16, CHR 0x59, CHR 0x47, CHR 0x77, CHR 0x65, CHR 0xE0, CHR 0x2E, CHR 0x1A,
      CHR 0x21, CHR 0x77, CHR 0xFA, CHR 0x77, CHR 0x41, CHR 0xF1, CHR 0xA2, CHR 0xF4,
      CHR 0x7B, CHR 0x6F, CHR 0x8F, CHR 0x8A, CHR 0xB7, CHR 0x1D, CHR 0x0A, CHR 0x1B]
      else if key = ''your-super-secret-jwt-key'' \<and> message = signing_input sample_payload_1h_json then
        [CHR 0x3D, CHR 0x59, CHR 0xC3, CHR 0xA2, CHR 0xE1, CHR 0x18, CHR 0x34, CHR 0xD9,
      CHR 0x55, CHR 0xC1, CHR 0x69, CHR 0xB6, CHR 0xE4, CHR 0x0C, CHR 0x48, CHR 0x14,
      CHR 0xD1, CHR 0x28, CHR 0xB3, CHR 0x5C, CHR 0xFF, CHR 0xA7, CHR 0xCB, CHR 0x4D,
      CHR 0xCA, CHR 0x78, CHR 0xC7, CHR 0xD4, CHR 0xC3, CHR 0xA1, CHR 0x7D, CHR 0x7D]
      else if key = ''your-super-secret-jwt-key'' \<and> message = signing_input sample_payload_noexp_json then
        [CHR 0x5A, CHR 0x9A, CHR 0xEE, CHR 0xE7, CHR 0x8A, CHR 0x0C, CHR 0xE1, CHR 0x7B,
      CHR 0xE2, CHR 0x64, CHR 0x79, CHR 0xE2, CHR 0x42, CHR 0x55, CHR 0x14, CHR 0x00,
      CHR 0x67, CHR 0xB7, CHR 0xB5, CHR 0x1C, CHR 0xCD, CHR 0x2B, CHR 0xB8, CHR 0x61,
      CHR 0xA5, CHR 0x6B, CHR 0xF9, CHR 0xB8, CHR 0x32, CHR 0x17, CHR 0xE4, CHR 0x06]
      else [])"

definition sample_fields :: "int \<Rightarrow> (string \<times> gvalue) list" where
  "sample_fields e =
     [(''sub'', GString sample_uuid_text), (''email'', GString []),
      (''scope'', GString sample_scope), (''iss'', GString ''ishare-task-api''),
      (''aud'', GString ''ishare-clients''), (''exp'', GInt64 e),
      (''iat'', GInt64 1700000000), (''nbf'', GInt64 1700000000)]"

definition has_fields :: "(string \<rightharpoonup> gvalue) \<Rightarrow> (string \<times> gvalue) list \<Rightarrow> bool" where
  "has_fields m kvs \<longleftrightarrow> list_all (\<lambda>(k, v). m k = Some v) kvs"

definition sample_Marshal :: "(string \<rightharpoonup> gvalue) \<Rightarrow> error + string" where
  "sample_Marshal m =
     (if has_fields m [(''alg'', GString ''HS256''), (''typ'', GString ''JWT'')] then
        Inr sample_header_json
      else if has_fields m (sample_fields 1700086400) then Inr sample_payload_json
      else if has_fields m (sample_fields 1700003600) then Inr sample_payload_1h_json
      else Inl (JSONError ''not tabulated''))"

definition sample_decoded :: "rat \<Rightarrow> (string \<rightharpoonup> gvalue)" where
  "sample_decoded e =
     [''aud'' \<mapsto> GString ''ishare-clients'', ''email'' \<mapsto> GString [],
      ''exp'' \<mapsto> GFloat64 e, ''iat'' \<mapsto> GFloat64 1700000000,
      ''iss'' \<mapsto> GString ''ishare-task-api'', ''nbf'' \<mapsto> GFloat64 1700000000,
      ''scope'' \<mapsto> GString sample_scope, ''sub'' \<mapsto> GString sample_uuid_text]"

definition sample_Unmarshal :: "string \<Rightarrow> error + (string \<rightharpoonup> gvalue)" where
  "sample_Unmarshal bytes =
     (if bytes = sample_payload_json then Inr (sample_decoded 1700086400)
      else if bytes = sample_payload_1h_json then Inr (sample_decoded 1700003600)
      else if bytes = sample_payload_noexp_json then
        Inr [''scope'' \<mapsto> GString ''tasks:read'', ''sub'' \<mapsto> GString sample_uuid_text]
      else Inl (JSONError ''not tabulated''))"

definition sample_ext :: ext where
  "sample_ext =
     \<lparr>hmac_sha256 = sample_hmac,
      json_Marshal = sample_Marshal,
      json_Unmarshal = sample_Unmarshal,
      uuid_String = (\<lambda>u. if u = sample_uuid then sample_uuid_text else []),
      uuid_Parse = (\<lambda>s. if s = sample_uuid_text then Inr sample_uuid
                         else Inl (Errorf ''invalid UUID format''))\<rparr>"

text \<open>The token \<^verbatim>\<open>GenerateJWS\<close> makes from a payload text, with the library values above.\<close>

definition sample_token :: "string \<Rightarrow> string" where
  "sample_token payloadJSON =
     signing_input payloadJSON @ ''.'' @ sign sample_ext sample_cfg (signing_input payloadJSON)"

definition sample_user :: User where
  "sample_user =
     \<lparr>user_ID = sample_uuid, user_Email = [], user_PasswordHash = [],
      user_CreatedAt = zero_Time, user_UpdatedAt = zero_Time\<rparr>"

definition sample_code :: AuthorizationCode where
  "sample_code =
     \<lparr>code_ID = 7, code_Code = ''c0de'', code_UserID = sample_uuid,
      code_ClientID = ''test-client'', code_Scope = sample_scope,
      code_ExpiresAt = 1700000600 * time_Second, code_CreatedAt = 1700000000 * time_Second\<rparr>"

definition sample_db :: DB where
  "sample_db = \<lparr>authorization_codes = [sample_code], access_tokens = [], users = [sample_user]\<rparr>"

section \<open>Facts about splitting\<close>

lemma strings_Split_not_Nil: "strings_Split s sep \<noteq> []"
  by (induction s) (auto split: list.splits)

lemma strings_Join_Cons:
  "ps \<noteq> [] \<Longrightarrow> strings_Join (p # ps) sep = p @ sep # strings_Join ps sep"
  by (cases ps) simp_all

lemma strings_Join_Split: "strings_Join (strings_Split s sep) sep = s"
proof (induction s)
  case Nil
  show ?case by simp
next
  case (Cons x xs)
  obtain p ps where sp: "strings_Split xs sep = p # ps"
    using strings_Split_not_Nil [of xs sep] by (cases "strings_Split xs sep") auto
  show ?case
  proof (cases "x = sep")
    case True
    then show ?thesis
      using Cons.IH by (simp add: strings_Join_Cons strings_Split_not_Nil)
  next
    case False
    then show ?thesis
      using Cons.IH sp by (cases ps) simp_all
  qed
qed

lemma strings_Split_sep_free:
  "p \<in> set (strings_Split s sep) \<Longrightarrow> sep \<notin> set p"
proof (induction s arbitrary: p)
  case Nil
  then show ?case by simp
next
  case (Cons x xs)
  then show ?case
    by (auto split: if_splits list.splits)
qed

lemma strings_Split_append_sep:
  "sep \<notin> set p \<Longrightarrow> strings_Split (p @ sep # s) sep = p # strings_Split s sep"
  by (induction p) auto

lemma strings_Split_sep_free_whole:
  "sep \<notin> set p \<Longrightarrow> strings_Split p sep = [p]"
  by (induction p) auto

lemma strings_Split_Join:
  "ps \<noteq> [] \<Longrightarrow> \<forall>p\<in>set ps. sep \<notin> set p \<Longrightarrow> strings_Split (strings_Join ps sep) sep = ps"
proof (induction ps sep rule: strings_Join.induct)
  case (1 sep)
  then show ?case by simp
next
  case (2 p sep)
  then show ?case by (simp add: strings_Split_sep_free_whole)
next
  case (3 p q ps sep)
  then show ?case by (simp add: strings_Split_append_sep)
qed

lemma scope_loop_mem: "scope_loop scopes requiredScope \<longleftrightarrow> requiredScope \<in> set scopes"
  by (induction scopes) auto

section \<open>Facts about base64\<close>

lemma regroup24:
  fixes n :: nat
  assumes "n < 16777216"
  shows "(n div 262144 mod 64) * 262144 + (n div 4096 mod 64) * 4096 + (n div 64 mod 64) * 64 + n mod 64 = n"
proof -
  define q1 where "q1 = n div 64"
  define q2 where "q2 = q1 div 64"
  define q3 where "q3 = q2 div 64"
  have d2: "n div 4096 = q2" unfolding q2_def q1_def by (simp add: div_mult2_eq)
  have d3: "n div 262144 = q3" unfolding q3_def q2_def q1_def by (simp add: div_mult2_eq)
  have s3: "q3 < 64" using assms d3 by (simp add: less_mult_imp_div_less flip: d3)
  have e1: "n = q1 * 64 + n mod 64" unfolding q1_def by simp
  have e2: "q1 = q2 * 64 + q1 mod 64" unfolding q2_def by simp
  have e3: "q2 = q3 * 64 + q2 mod 64" unfolding q3_def by simp
  have m3: "q3 mod 64 = q3" using s3 by simp
  show ?thesis
    unfolding d2 d3 m3 q1_def [symmetric]
    using e1 e2 e3 by linarith
qed

lemma bytes3:
  fixes A B C :: nat
  assumes "A < 256" "B < 256" "C < 256"
  shows "(A * 65536 + B * 256 + C) div 65536 = A"
    and "(A * 65536 + B * 256 + C) div 256 mod 256 = B"
    and "(A * 65536 + B * 256 + C) mod 256 = C"
    and "A * 65536 + B * 256 + C < 16777216"
proof -
  have r: "A * 65536 + B * 256 + C = (A * 256 + B) * 256 + C" by simp
  have m: "((A * 256 + B) * 256 + C) mod 256 = C mod 256" by (rule mod_mult_self3)
  have d: "((A * 256 + B) * 256 + C) div 256 = (A * 256 + B) + C div 256"
    by (rule div_mult_self3) simp
  have m2: "(A * 256 + B) mod 256 = B mod 256" by (rule mod_mult_self3)
  show "(A * 65536 + B * 256 + C) div 65536 = A" using assms by simp
  show "(A * 65536 + B * 256 + C) mod 256 = C" using r m assms(3) by (metis mod_less)
  have "(A * 65536 + B * 256 + C) div 256 = A * 256 + B"
    using r d assms(3) by (metis div_less add.right_neutral)
  then show "(A * 65536 + B * 256 + C) div 256 mod 256 = B" using m2 assms(2) by (metis mod_less)
  show "A * 65536 + B * 256 + C < 16777216" using assms by simp
qed

lemma dec6_enc6: "i < 64 \<Longrightarrow> dec6 (enc6 i) = Some i"
  unfolding enc6_def dec6_def Let_def
  by (auto simp: of_char_of [where ?'a = nat])

lemma dec6_special:
  "dec6 (CHR ''.'') = None" "dec6 (CHR 0x0A) = None" "dec6 (CHR 0x0D) = None"
  "dec6 (CHR '' '') = None"
  by (simp_all add: dec6_def)

lemma enc6_not_special: "i < 64 \<Longrightarrow> enc6 i \<noteq> CHR ''.'' \<and> enc6 i \<noteq> CHR 0x0A \<and> enc6 i \<noteq> CHR 0x0D"
  using dec6_enc6 [of i] dec6_special by auto

lemma sextets_lt: "v \<in> set (sextets s) \<Longrightarrow> v < 64"
  by (induction s arbitrary: v rule: sextets.induct) (auto simp: Let_def)

lemma dec6s_enc6: "\<forall>v\<in>set vs. v < 64 \<Longrightarrow> dec6s (map enc6 vs) = Some vs"
  by (induction vs) (simp_all add: dec6_enc6 enc6_not_special)

lemma octets_sextets: "octets (sextets s) = Inr s"
proof (induction s rule: sextets.induct)
  case (1 a b c rest)
  define n :: nat where "n = of_char a * 65536 + of_char b * 256 + of_char c"
  have lt: "(of_char a :: nat) < 256" "(of_char b :: nat) < 256" "(of_char c :: nat) < 256"
    by simp_all
  note B = bytes3 [OF lt, folded n_def]
  have R: "(n div 262144 mod 64) * 262144 + (n div 4096 mod 64) * 4096 + (n div 64 mod 64) * 64 + n mod 64 = n"
    using B(4) by (rule regroup24)
  have "octets (sextets (a # b # c # rest)) =
          Inr (char_of (n div 65536) # char_of (n div 256 mod 256) # char_of (n mod 256) # rest)"
    using "1.IH" by (simp only: sextets.simps octets.simps Let_def n_def [symmetric] R sum.case)
  also have "\<dots> = Inr (a # b # c # rest)"
    by (simp only: B char_of_char)
  finally show ?case .
next
  case (2 a b)
  define n :: nat where "n = of_char a * 65536 + of_char b * 256 + 0"
  have lt: "(of_char a :: nat) < 256" "(of_char b :: nat) < 256" "(0 :: nat) < 256"
    by simp_all
  note B = bytes3 [OF lt, folded n_def]
  have n': "of_char a * 65536 + of_char b * 256 = n" by (simp add: n_def)
  have z: "n mod 64 = 0" unfolding n_def by simp
  have R: "(n div 262144 mod 64) * 262144 + (n div 4096 mod 64) * 4096 + (n div 64 mod 64) * 64 = n"
    using regroup24 [OF B(4)] z by linarith
  have "octets (sextets [a, b]) = Inr [char_of (n div 65536), char_of (n div 256 mod 256)]"
    by (simp only: sextets.simps octets.simps Let_def n' R)
  also have "\<dots> = Inr [a, b]"
    by (simp only: B char_of_char)
  finally show ?case .
next
  case (3 a)
  define n :: nat where "n = of_char a * 65536 + 0 * 256 + 0"
  have lt: "(of_char a :: nat) < 256" "(0 :: nat) < 256" "(0 :: nat) < 256"
    by simp_all
  note B = bytes3 [OF lt, folded n_def]
  have n': "of_char a * 65536 = n" by (simp add: n_def)
  have z: "n mod 64 = 0" "n div 64 mod 64 = 0" unfolding n_def by simp_all
  have R: "(n div 262144 mod 64) * 262144 + (n div 4096 mod 64) * 4096 = n"
    using regroup24 [OF B(4)] z by linarith
  have "octets (sextets [a]) = Inr [char_of (n div 65536)]"
    by (simp only: sextets.simps octets.simps Let_def n' R)
  also have "\<dots> = Inr [a]"
    by (simp only: B char_of_char)
  finally show ?case .
next
  case 4
  show ?case by simp
qed

lemma DecodeString_EncodeToString: "DecodeString (EncodeToString s) = Inr s"
  by (simp add: DecodeString_def EncodeToString_def dec6s_enc6 sextets_lt octets_sextets)

lemma EncodeToString_inj: "EncodeToString s = EncodeToString t \<Longrightarrow> s = t"
  by (metis DecodeString_EncodeToString sum.inject(2))

lemma EncodeToString_alphabet: "c \<in> set (EncodeToString s) \<Longrightarrow> dec6 c \<noteq> None"
  using dec6_enc6 sextets_lt by (fastforce simp: EncodeToString_def)

lemma EncodeToString_no_dot: "CHR ''.'' \<notin> set (EncodeToString s)"
  using EncodeToString_alphabet [of "CHR ''.''" s] dec6_special(1) by blast

lemma EncodeToString_no_space: "CHR '' '' \<notin> set (EncodeToString s)"
  using EncodeToString_alphabet [of "CHR '' ''" s] dec6_special(4) by blast

lemma EncodeToString_Nil_iff: "EncodeToString s = [] \<longleftrightarrow> s = []"
  using EncodeToString_inj [of s "[]"] by (auto simp: EncodeToString_def)

section \<open>Facts about tokens\<close>

lemma strings_Split_three:
  assumes "sep \<notin> set h" "sep \<notin> set p" "sep \<notin> set s"
  shows "strings_Split (h @ [sep] @ p @ [sep] @ s) sep = [h, p, s]"
  using assms by (simp add: strings_Split_append_sep strings_Split_sep_free_whole)

lemma ValidateJWS_segments:
  assumes "strings_Split jws (CHR ''.'') = [h, p, s]"
  shows "ValidateJWS L cfg now jws =
           (if s \<noteq> sign L cfg (h @ ''.'' @ p) then Inl (Errorf ''invalid signature'')
            else after_signature L now p)"
  using assms by (simp add: ValidateJWS_def after_signature_def Let_def)

lemma ValidateJWS_not_three:
  assumes "length (strings_Split jws (CHR ''.'')) \<noteq> 3"
  shows "ValidateJWS L cfg now jws = Inl (Errorf ''invalid JWS format'')"
proof -
  have "\<And>h p s. strings_Split jws (CHR ''.'') \<noteq> [h, p, s]"
    using assms by auto
  then show ?thesis
    by (auto simp: ValidateJWS_def split: list.splits)
qed

lemma after_signature_decoded:
  assumes "json_Unmarshal L bytes = Inr payload"
  shows "after_signature L now (EncodeToString bytes) =
           (if exp_passed payload now then Inl (Errorf ''token expired'')
            else extract_claims L payload)"
  using assms by (simp add: after_signature_def DecodeString_EncodeToString)

lemma GenerateJWS_shape:
  assumes "json_Marshal L jws_header = Inr hj"
    and "json_Marshal L (jws_payload L cfg now user scope) = Inr pj"
  shows "GenerateJWS L cfg now user scope =
           Inr (EncodeToString hj @ ''.'' @ EncodeToString pj @ ''.'' @
                sign L cfg (EncodeToString hj @ ''.'' @ EncodeToString pj))"
  using assms by (simp add: GenerateJWS_def Let_def)

lemma sign_no_dot: "CHR ''.'' \<notin> set (sign L cfg input)"
  by (simp add: sign_def EncodeToString_no_dot)

lemma ValidateJWS_generated:
  "ValidateJWS L cfg now
     (EncodeToString hj @ ''.'' @ EncodeToString pj @ ''.'' @
      sign L cfg (EncodeToString hj @ ''.'' @ EncodeToString pj)) =
   after_signature L now (EncodeToString pj)"
proof -
  have "strings_Split
          (EncodeToString hj @ [CHR ''.''] @ EncodeToString pj @ [CHR ''.''] @
           sign L cfg (EncodeToString hj @ ''.'' @ EncodeToString pj)) (CHR ''.'') =
        [EncodeToString hj, EncodeToString pj,
         sign L cfg (EncodeToString hj @ ''.'' @ EncodeToString pj)]"
    by (rule strings_Split_three) (simp_all add: EncodeToString_no_dot sign_no_dot)
  then show ?thesis
    using ValidateJWS_segments [of _ "EncodeToString hj" "EncodeToString pj"
        "sign L cfg (EncodeToString hj @ ''.'' @ EncodeToString pj)" L cfg now]
    by simp
qed

section \<open>Facts about the sample values\<close>

lemma signing_input_inj: "signing_input x = signing_input y \<Longrightarrow> x = y"
  by (auto simp: signing_input_def dest: EncodeToString_inj)

lemma sample_token_split:
  "strings_Split (sample_token pj) (CHR ''.'') =
     [EncodeToString sample_header_json, EncodeToString pj,
      sign sample_ext sample_cfg (signing_input pj)]"
  using strings_Split_three [of "CHR ''.''" "EncodeToString sample_header_json"
      "EncodeToString pj" "sign sample_ext sample_cfg (signing_input pj)"]
  by (simp add: sample_token_def signing_input_def EncodeToString_no_dot sign_no_dot)

lemma sample_Unmarshal_values:
  "json_Unmarshal sample_ext sample_payload_json = Inr (sample_decoded 1700086400)"
  "json_Unmarshal sample_ext sample_payload_1h_json = Inr (sample_decoded 1700003600)"
  "json_Unmarshal sample_ext sample_payload_noexp_json =
     Inr [''scope'' \<mapsto> GString ''tasks:read'', ''sub'' \<mapsto> GString sample_uuid_text]"
  by (simp_all add: sample_ext_def sample_Unmarshal_def sample_payload_json_def
      sample_payload_1h_json_def sample_payload_noexp_json_def)

lemma sample_extract_claims:
  "extract_claims sample_ext (sample_decoded e) =
     Inr \<lparr>UserID = sample_uuid, Email = [], Scope = sample_scope\<rparr>"
  by (simp add: extract_claims_def sample_decoded_def sample_ext_def string_or_empty_def)

lemma sample_exp_passed:
  "exp_passed (sample_decoded e) now \<longleftrightarrow> int64_of_float64 e * time_Second < now"
  by (simp add: exp_passed_def sample_decoded_def time_Before_def time_Unix_def)

lemma int64_of_float64_of_int:
  "- (2 ^ 63) \<le> n \<Longrightarrow> n < 2 ^ 63 \<Longrightarrow> int64_of_float64 (of_int n) = n"
  by (simp add: int64_of_float64_def)

section \<open>Verification of a token\<close>

text \<open>
  C5. \<^verbatim>\<open>ValidateJWS\<close> fails with \<^verbatim>\<open>invalid JWS format\<close> whenever splitting the input on
  \<^verbatim>\<open>.\<close> does not give exactly three segments. When it gives three segments and the third
  differs from the signature recomputed over the first two, it fails with
  \<^verbatim>\<open>invalid signature\<close>, and it does so whatever the JSON decoder, the identifier parser
  and the clock are: nothing of the payload is decoded or looked at before the
  comparison.
\<close>

theorem ValidateJWS_format_then_signature:
  "(length (strings_Split jws (CHR ''.'')) \<noteq> 3 \<longrightarrow>
      ValidateJWS L cfg now jws = Inl (Errorf ''invalid JWS format'')) \<and>
   (\<forall>h p s. strings_Split jws (CHR ''.'') = [h, p, s] \<and> s \<noteq> sign L cfg (h @ ''.'' @ p) \<longrightarrow>
      (\<forall>(L' :: ext) now'. hmac_sha256 L' = hmac_sha256 L \<longrightarrow>
         ValidateJWS L' cfg now' jws = Inl (Errorf ''invalid signature'')))"
proof (intro conjI impI allI)
  assume "length (strings_Split jws (CHR ''.'')) \<noteq> 3"
  then show "ValidateJWS L cfg now jws = Inl (Errorf ''invalid JWS format'')"
    by (rule ValidateJWS_not_three)
next
  fix h p s and L' :: ext and now'
  assume seg: "strings_Split jws (CHR ''.'') = [h, p, s] \<and> s \<noteq> sign L cfg (h @ ''.'' @ p)"
    and same: "hmac_sha256 L' = hmac_sha256 L"
  have "sign L' cfg (h @ ''.'' @ p) = sign L cfg (h @ ''.'' @ p)"
    using same by (simp add: sign_def)
  then show "ValidateJWS L' cfg now' jws = Inl (Errorf ''invalid signature'')"
    using seg ValidateJWS_segments [of jws h p s L' cfg now'] by simp
qed

theorem ValidateJWS_format_then_signature_witness:
  "ValidateJWS sample_ext sample_cfg 0 ''garbage'' = Inl (Errorf ''invalid JWS format'') \<and>
   ValidateJWS sample_ext sample_cfg 0 (signing_input sample_payload_json @ ''.'') =
     Inl (Errorf ''invalid signature'')"
proof -
  let ?h = "EncodeToString sample_header_json"
  let ?p = "EncodeToString sample_payload_json"
  let ?jws = "signing_input sample_payload_json @ ''.''"
  have one: "length (strings_Split ''garbage'' (CHR ''.'')) \<noteq> 3"
    by simp
  have three: "strings_Split ?jws (CHR ''.'') = [?h, ?p, []]"
    using strings_Split_three [of "CHR ''.''" ?h ?p "[]"]
    by (simp add: signing_input_def EncodeToString_no_dot)
  have "sign sample_ext sample_cfg (?h @ ''.'' @ ?p) \<noteq> []"
    by (simp add: sign_def EncodeToString_Nil_iff sample_ext_def sample_cfg_def
        sample_hmac_def signing_input_def)
  then have bad: "[] \<noteq> sign sample_ext sample_cfg (?h @ ''.'' @ ?p)"
    by simp
  show ?thesis
    using ValidateJWS_format_then_signature [of "''garbage''" sample_ext sample_cfg 0] one
      ValidateJWS_format_then_signature [of ?jws sample_ext sample_cfg 0] three bad
    by blast
qed

text \<open>
  C4. A token of three segments whose signature is the recomputed one and whose payload
  decodes to a JSON object with a parsable identifier under \<^verbatim>\<open>sub\<close>, but with no number
  under \<^verbatim>\<open>exp\<close> (the field is absent or is not a number), is accepted by \<^verbatim>\<open>ValidateJWS\<close>
  at every reading of the clock: no expiry check is made.
\<close>

theorem ValidateJWS_without_exp_never_expires:
  assumes "strings_Split jws (CHR ''.'') = [h, p, s]"
    and "s = sign L cfg (h @ ''.'' @ p)"
    and "DecodeString p = Inr bytes"
    and "json_Unmarshal L bytes = Inr payload"
    and "payload ''sub'' = Some (GString u)"
    and "uuid_Parse L u = Inr uid"
    and "\<forall>x. payload ''exp'' \<noteq> Some (GFloat64 x)"
  shows "\<forall>now. ValidateJWS L cfg now jws =
           Inr \<lparr>UserID = uid, Email = string_or_empty (payload ''email''),
                Scope = string_or_empty (payload ''scope'')\<rparr>"
proof
  fix now
  have "\<not> exp_passed payload now"
    using assms(7) by (auto simp: exp_passed_def split: option.splits gvalue.splits)
  moreover have "extract_claims L payload =
      Inr \<lparr>UserID = uid, Email = string_or_empty (payload ''email''),
           Scope = string_or_empty (payload ''scope'')\<rparr>"
    using assms(5,6) by (simp add: extract_claims_def)
  ultimately show "ValidateJWS L cfg now jws =
      Inr \<lparr>UserID = uid, Email = string_or_empty (payload ''email''),
           Scope = string_or_empty (payload ''scope'')\<rparr>"
    using assms(1-4) ValidateJWS_segments [of jws h p s L cfg now]
    by (simp add: after_signature_def)
qed

theorem ValidateJWS_without_exp_never_expires_witness:
  "ValidateJWS sample_ext sample_cfg 0 (sample_token sample_payload_noexp_json) =
     Inr \<lparr>UserID = sample_uuid, Email = [], Scope = ''tasks:read''\<rparr> \<and>
   ValidateJWS sample_ext sample_cfg (10 ^ 30) (sample_token sample_payload_noexp_json) =
     Inr \<lparr>UserID = sample_uuid, Email = [], Scope = ''tasks:read''\<rparr>"
proof -
  let ?payload = "[''scope'' \<mapsto> GString ''tasks:read'', ''sub'' \<mapsto> GString sample_uuid_text]"
  have sig: "sign sample_ext sample_cfg (signing_input sample_payload_noexp_json) =
      sign sample_ext sample_cfg
        (EncodeToString sample_header_json @ ''.'' @ EncodeToString sample_payload_noexp_json)"
    by (simp add: signing_input_def)
  have sub: "?payload ''sub'' = Some (GString sample_uuid_text)"
    by simp
  have parse: "uuid_Parse sample_ext sample_uuid_text = Inr sample_uuid"
    by (simp add: sample_ext_def)
  have noexp: "\<forall>x. ?payload ''exp'' \<noteq> Some (GFloat64 x)"
    by simp
  have "\<forall>now. ValidateJWS sample_ext sample_cfg now (sample_token sample_payload_noexp_json) =
      Inr \<lparr>UserID = sample_uuid, Email = string_or_empty (?payload ''email''),
           Scope = string_or_empty (?payload ''scope'')\<rparr>"
    by (rule ValidateJWS_without_exp_never_expires
        [OF sample_token_split sig DecodeString_EncodeToString sample_Unmarshal_values(3)
          sub parse noexp])
  then show ?thesis
    by (simp add: string_or_empty_def)
qed

text \<open>
  C6. A token of three segments with the recomputed signature whose payload decodes to
  a JSON object with a number under \<^verbatim>\<open>exp\<close> that is less than the current time (in
  seconds) is rejected with \<^verbatim>\<open>token expired\<close>. The clock is taken to read a time after
  the Unix epoch, or else the number not to be negative: \<^verbatim>\<open>int64(exp)\<close> rounds a negative
  fraction up to the next second.
\<close>

theorem ValidateJWS_expired:
  assumes "strings_Split jws (CHR ''.'') = [h, p, s]"
    and "s = sign L cfg (h @ ''.'' @ p)"
    and "DecodeString p = Inr bytes"
    and "json_Unmarshal L bytes = Inr payload"
    and "payload ''exp'' = Some (GFloat64 e)"
    and "e * of_int time_Second < of_int now"
    and "0 \<le> e \<or> 0 < now"
  shows "ValidateJWS L cfg now jws = Inl (Errorf ''token expired'')"
proof -
  have sec: "time_Second = 1000000000"
    by (simp add: time_Second_def)
  have "int64_of_float64 e * time_Second < now"
  proof (cases "0 \<le> e")
    case True
    then have "0 \<le> e * of_int time_Second"
      by (simp add: sec)
    then have "(0 :: rat) < of_int now"
      using assms(6) by linarith
    then have nonneg: "0 \<le> now"
      by simp
    show ?thesis
    proof (cases "\<lfloor>e\<rfloor> < 2 ^ 63")
      case inrange: True
      have "of_int (\<lfloor>e\<rfloor> * time_Second) \<le> e * of_int time_Second"
        by (simp add: sec mult_right_mono)
      then have "(of_int (\<lfloor>e\<rfloor> * time_Second) :: rat) < of_int now"
        using assms(6) by linarith
      then have "\<lfloor>e\<rfloor> * time_Second < now"
        by (simp only: of_int_less_iff)
      moreover have "int64_of_float64 e = \<lfloor>e\<rfloor>"
        using True inrange by (simp add: int64_of_float64_def Let_def)
      ultimately show ?thesis by simp
    next
      case False
      then have "int64_of_float64 e = - (2 ^ 63)"
        using True by (simp add: int64_of_float64_def Let_def)
      then show ?thesis
        using nonneg by (simp add: sec)
    qed
  next
    case False
    then have pos: "0 < now"
      using assms(7) by simp
    have "\<lceil>e\<rceil> \<le> 0"
      using False by (simp add: ceiling_le_iff)
    then have "int64_of_float64 e \<le> 0"
      using False by (simp add: int64_of_float64_def Let_def)
    then have "int64_of_float64 e * time_Second \<le> 0"
      by (simp add: sec mult_le_0_iff)
    then show ?thesis
      using pos by linarith
  qed
  then have "exp_passed payload now"
    using assms(5) by (simp add: exp_passed_def time_Before_def time_Unix_def)
  then show ?thesis
    using assms(1-4) ValidateJWS_segments [of jws h p s L cfg now]
    by (simp add: after_signature_def)
qed

theorem ValidateJWS_expired_witness:
  "ValidateJWS sample_ext sample_cfg (1700086400 * time_Second + 1)
     (sample_token sample_payload_json) = Inl (Errorf ''token expired'')"
proof -
  have sig: "sign sample_ext sample_cfg (signing_input sample_payload_json) =
      sign sample_ext sample_cfg
        (EncodeToString sample_header_json @ ''.'' @ EncodeToString sample_payload_json)"
    by (simp add: signing_input_def)
  have e: "sample_decoded 1700086400 ''exp'' = Some (GFloat64 1700086400)"
    by (simp add: sample_decoded_def)
  have past: "(1700086400 :: rat) * of_int time_Second < of_int (1700086400 * time_Second + 1)"
    by (simp add: time_Second_def)
  have clock: "0 \<le> (1700086400 :: rat) \<or> 0 < 1700086400 * time_Second + 1"
    by simp
  show ?thesis
    by (rule ValidateJWS_expired
        [OF sample_token_split sig DecodeString_EncodeToString sample_Unmarshal_values(1)
          e past clock])
qed

section \<open>Scope check\<close>

text \<open>
  C10. \<^verbatim>\<open>HasScope(claims, required)\<close> is true exactly when \<^verbatim>\<open>claims.Scope\<close> is not empty
  and \<^verbatim>\<open>required\<close> is one of the segments of \<^verbatim>\<open>claims.Scope\<close> between single spaces:
  the scope is the space-join of a non-empty list of space-free segments, and
  \<^verbatim>\<open>required\<close> is a whole segment of that list. So an empty scope always gives false,
  and a required scope that is only a prefix of a segment, or holds a space, never matches.
\<close>

theorem HasScope_iff_exact_segment:
  "HasScope claims required \<longleftrightarrow>
     (Scope claims \<noteq> [] \<and>
      (\<exists>ps. ps \<noteq> [] \<and> (\<forall>p\<in>set ps. CHR '' '' \<notin> set p) \<and>
            strings_Join ps (CHR '' '') = Scope claims \<and> required \<in> set ps))"
proof (cases "Scope claims = []")
  case True
  then show ?thesis by (simp add: HasScope_def)
next
  case False
  let ?ss = "strings_Split (Scope claims) (CHR '' '')"
  have lhs: "HasScope claims required \<longleftrightarrow> required \<in> set ?ss"
    using False by (simp add: HasScope_def scope_loop_mem)
  have uniq: "ps = ?ss"
    if "ps \<noteq> []" "\<forall>p\<in>set ps. CHR '' '' \<notin> set p" "strings_Join ps (CHR '' '') = Scope claims"
    for ps
    using strings_Split_Join [OF that(1) that(2)] that(3) by simp
  have ex: "?ss \<noteq> [] \<and> (\<forall>p\<in>set ?ss. CHR '' '' \<notin> set p) \<and>
            strings_Join ?ss (CHR '' '') = Scope claims"
    using strings_Split_not_Nil strings_Split_sep_free strings_Join_Split by blast
  show ?thesis
    using False lhs uniq ex by metis
qed

theorem HasScope_iff_exact_segment_witness:
  "HasScope \<lparr>UserID = 0, Email = [], Scope = ''tasks:read tasks:write''\<rparr> ''tasks:write'' \<and>
   \<not> HasScope \<lparr>UserID = 0, Email = [], Scope = ''tasks:read tasks:write''\<rparr> ''tasks'' \<and>
   \<not> HasScope \<lparr>UserID = 0, Email = [], Scope = []\<rparr> []"
proof -
  let ?c = "\<lparr>UserID = 0, Email = [], Scope = ''tasks:read tasks:write''\<rparr>"
  have "\<exists>ps. ps \<noteq> [] \<and> (\<forall>p\<in>set ps. CHR '' '' \<notin> set p) \<and>
          strings_Join ps (CHR '' '') = Scope ?c \<and> ''tasks:write'' \<in> set ps"
    by (rule exI [of _ "[''tasks:read'', ''tasks:write'']"]) simp
  then have "HasScope ?c ''tasks:write''"
    using HasScope_iff_exact_segment [of ?c "''tasks:write''"] by simp
  then show ?thesis
    by (simp add: HasScope_def)
qed

section \<open>Issue, then verify\<close>

lemma sample_ValidateJWS:
  "ValidateJWS sample_ext sample_cfg now (sample_token pj) =
     after_signature sample_ext now (EncodeToString pj)"
  using ValidateJWS_generated [of sample_ext sample_cfg now sample_header_json pj]
  by (simp add: sample_token_def signing_input_def)

lemma sample_Marshal_header: "json_Marshal sample_ext jws_header = Inr sample_header_json"
  by (simp add: sample_ext_def sample_Marshal_def has_fields_def jws_header_def)

lemma sample_payload_fields:
  assumes "time_to_Unix now = 1700000000"
    and "time_to_Unix (time_Add now (Expiration cfg)) = e"
    and "Issuer cfg = ''ishare-task-api''" and "Audience cfg = ''ishare-clients''"
  shows "has_fields (jws_payload sample_ext cfg now sample_user sample_scope) (sample_fields e)"
  using assms
  by (simp add: has_fields_def sample_fields_def jws_payload_def sample_ext_def
      sample_user_def)

lemma sample_payload_not_header:
  "\<not> has_fields (jws_payload L cfg now user scope)
       [(''alg'', GString ''HS256''), (''typ'', GString ''JWT'')]"
  by (simp add: has_fields_def jws_payload_def)

lemma Unix_after_whole_seconds:
  "time_to_Unix (time_Add now (k * time_Second)) = time_to_Unix now + k"
  by (simp add: time_to_Unix_def time_Add_def time_Second_def)

text \<open>A token whose TTL is at least one second has not expired at the moment of issue.\<close>

lemma not_expired_at_issue:
  assumes "time_Second \<le> Expiration cfg"
  shows "now \<le> time_Unix (time_to_Unix (time_Add now (Expiration cfg)))"
proof -
  let ?t = "now + Expiration cfg"
  have "?t = ?t div 1000000000 * 1000000000 + ?t mod 1000000000"
    by simp
  moreover have "?t mod 1000000000 < 1000000000"
    by simp
  ultimately have "?t - 1000000000 < ?t div 1000000000 * 1000000000"
    by linarith
  then show ?thesis
    using assms by (simp add: time_Unix_def time_to_Unix_def time_Add_def time_Second_def)
qed

lemma sample_Expiration: "Expiration sample_cfg = 86400 * time_Second"
  by (simp add: sample_cfg_def time_Hour_def time_Minute_def)

lemma sample_exp:
  assumes "time_to_Unix now = 1700000000"
  shows "time_to_Unix (time_Add now (Expiration sample_cfg)) = 1700086400"
  using assms Unix_after_whole_seconds [of now 86400] by (simp add: sample_Expiration)

lemma sample_Marshal_payload:
  assumes "time_to_Unix now = 1700000000"
  shows "json_Marshal sample_ext (jws_payload sample_ext sample_cfg now sample_user sample_scope) =
           Inr sample_payload_json"
proof -
  have "has_fields (jws_payload sample_ext sample_cfg now sample_user sample_scope)
          (sample_fields 1700086400)"
    using assms sample_exp [OF assms] by (rule sample_payload_fields) (simp_all add: sample_cfg_def)
  then show ?thesis
    using sample_payload_not_header [of sample_ext sample_cfg now sample_user sample_scope]
    by (simp add: sample_ext_def sample_Marshal_def)
qed

lemma sample_GenerateJWS:
  assumes "time_to_Unix now = 1700000000"
  shows "GenerateJWS sample_ext sample_cfg now sample_user sample_scope =
           Inr (sample_token sample_payload_json)"
  using GenerateJWS_shape [OF sample_Marshal_header sample_Marshal_payload [OF assms]]
  by (simp add: sample_token_def signing_input_def)

lemma sample_decoded_view:
  assumes "time_to_Unix now = 1700000000"
  shows "sample_decoded 1700086400 =
           json_view (jws_payload sample_ext sample_cfg now sample_user sample_scope)"
proof
  fix k
  show "sample_decoded 1700086400 k =
          json_view (jws_payload sample_ext sample_cfg now sample_user sample_scope) k"
    using assms sample_exp [OF assms]
    by (simp add: sample_decoded_def json_view_def jws_payload_def as_read_back_def
        sample_ext_def sample_user_def sample_cfg_def)
qed

lemma sample_now: "time_to_Unix (1700000000 * time_Second + 500000000) = 1700000000"
  by (simp add: time_to_Unix_def time_Second_def)

lemma sample_after_signature:
  "after_signature sample_ext now (EncodeToString sample_payload_json) =
     (if 1700086400 * time_Second < now then Inl (Errorf ''token expired'')
      else Inr \<lparr>UserID = sample_uuid, Email = [], Scope = sample_scope\<rparr>)"
proof -
  have "int64_of_float64 1700086400 = 1700086400"
    using int64_of_float64_of_int [of 1700086400] by simp
  then show ?thesis
    using after_signature_decoded [OF sample_Unmarshal_values(1), of now]
    by (simp add: sample_exp_passed sample_extract_claims)
qed

text \<open>
  C2, as the code has it. \<^verbatim>\<open>GenerateJWS\<close> writes the expiry in whole seconds,
  \<open>exp = \<lfloor>now + TTL\<rfloor>\<close>, and \<^verbatim>\<open>ValidateJWS\<close> rejects a token once the clock is past that
  second. So the token of \<^verbatim>\<open>GenerateJWS\<close> is accepted, with the user's identifier, email
  and the scope given, at every time not after the start of the second \<open>exp\<close>; that can
  be up to one second before the TTL elapses. The libraries are taken to do their
  round trips at the values involved: the JSON text of the payload reads back as the
  payload, and the printed identifier parses back.
\<close>

theorem ValidateJWS_GenerateJWS:
  assumes "json_Marshal L jws_header = Inr hj"
    and "json_Marshal L (jws_payload L cfg now user scope) = Inr pj"
    and "json_Unmarshal L pj = Inr (json_view (jws_payload L cfg now user scope))"
    and "uuid_Parse L (uuid_String L (user_ID user)) = Inr (user_ID user)"
    and "- (2 ^ 63) \<le> time_to_Unix (time_Add now (Expiration cfg))"
    and "time_to_Unix (time_Add now (Expiration cfg)) < 2 ^ 63"
    and "now' \<le> time_Unix (time_to_Unix (time_Add now (Expiration cfg)))"
  shows "\<exists>jws. GenerateJWS L cfg now user scope = Inr jws \<and>
           ValidateJWS L cfg now' jws =
             Inr \<lparr>UserID = user_ID user, Email = user_Email user, Scope = scope\<rparr>"
proof -
  let ?m = "json_view (jws_payload L cfg now user scope)"
  let ?e = "time_to_Unix (time_Add now (Expiration cfg))"
  have exp: "?m ''exp'' = Some (GFloat64 (of_int ?e))"
    by (simp add: json_view_def jws_payload_def as_read_back_def)
  have "int64_of_float64 (of_int ?e) = ?e"
    using assms(5,6) by (rule int64_of_float64_of_int)
  then have fresh: "\<not> exp_passed ?m now'"
    using exp assms(7) by (simp add: exp_passed_def time_Before_def)
  have "?m ''sub'' = Some (GString (uuid_String L (user_ID user)))"
    and "?m ''email'' = Some (GString (user_Email user))"
    and "?m ''scope'' = Some (GString scope)"
    by (simp_all add: json_view_def jws_payload_def as_read_back_def)
  then have "extract_claims L ?m =
      Inr \<lparr>UserID = user_ID user, Email = user_Email user, Scope = scope\<rparr>"
    using assms(4) by (simp add: extract_claims_def string_or_empty_def)
  then have "after_signature L now' (EncodeToString pj) =
      Inr \<lparr>UserID = user_ID user, Email = user_Email user, Scope = scope\<rparr>"
    using after_signature_decoded [OF assms(3), of now'] fresh by simp
  then show ?thesis
    using GenerateJWS_shape [OF assms(1,2)] ValidateJWS_generated [of L cfg now' hj pj]
    by simp
qed

theorem ValidateJWS_GenerateJWS_witness:
  "GenerateJWS sample_ext sample_cfg (1700000000 * time_Second + 500000000) sample_user
     sample_scope = Inr (sample_token sample_payload_json) \<and>
   ValidateJWS sample_ext sample_cfg (1700086400 * time_Second) (sample_token sample_payload_json) =
     Inr \<lparr>UserID = sample_uuid, Email = [], Scope = sample_scope\<rparr>"
proof -
  let ?now = "1700000000 * time_Second + 500000000"
  have reread: "json_Unmarshal sample_ext sample_payload_json =
      Inr (json_view (jws_payload sample_ext sample_cfg ?now sample_user sample_scope))"
    using sample_Unmarshal_values(1) sample_decoded_view [OF sample_now] by simp
  have uid: "uuid_Parse sample_ext (uuid_String sample_ext (user_ID sample_user)) =
      Inr (user_ID sample_user)"
    by (simp add: sample_ext_def sample_user_def)
  have lo: "- (2 ^ 63) \<le> time_to_Unix (time_Add ?now (Expiration sample_cfg))"
    and hi: "time_to_Unix (time_Add ?now (Expiration sample_cfg)) < 2 ^ 63"
    and live: "1700086400 * time_Second \<le>
      time_Unix (time_to_Unix (time_Add ?now (Expiration sample_cfg)))"
    by (simp_all add: sample_exp [OF sample_now] time_Unix_def)
  have "\<exists>jws. GenerateJWS sample_ext sample_cfg ?now sample_user sample_scope = Inr jws \<and>
      ValidateJWS sample_ext sample_cfg (1700086400 * time_Second) jws =
        Inr \<lparr>UserID = user_ID sample_user, Email = user_Email sample_user,
             Scope = sample_scope\<rparr>"
    by (rule ValidateJWS_GenerateJWS
        [OF sample_Marshal_header sample_Marshal_payload [OF sample_now] reread uid lo hi live])
  then show ?thesis
    using sample_GenerateJWS [OF sample_now] by (simp add: sample_user_def)
qed

text \<open>
  C2 as stated fails in the last fraction of a second before the TTL elapses: a token
  issued at 1700000000.5 s with a TTL of 24 hours is rejected as expired at
  1700086400.2 s, which is before 1700086400.5 s.
\<close>

theorem ValidateJWS_GenerateJWS_counterexample:
  "0 < Expiration sample_cfg \<and>
   uuid_Parse sample_ext (uuid_String sample_ext (user_ID sample_user)) = Inr (user_ID sample_user) \<and>
   1700086400 * time_Second + 200000000 <
     time_Add (1700000000 * time_Second + 500000000) (Expiration sample_cfg) \<and>
   GenerateJWS sample_ext sample_cfg (1700000000 * time_Second + 500000000) sample_user
     sample_scope = Inr (sample_token sample_payload_json) \<and>
   ValidateJWS sample_ext sample_cfg (1700086400 * time_Second + 200000000)
     (sample_token sample_payload_json) = Inl (Errorf ''token expired'')"
proof -
  have "ValidateJWS sample_ext sample_cfg (1700086400 * time_Second + 200000000)
      (sample_token sample_payload_json) = Inl (Errorf ''token expired'')"
    by (simp add: sample_ValidateJWS sample_after_signature)
  moreover have "1700086400 * time_Second + 200000000 <
      time_Add (1700000000 * time_Second + 500000000) (Expiration sample_cfg)"
    by (simp add: sample_Expiration time_Add_def time_Second_def)
  moreover have "0 < Expiration sample_cfg"
    by (simp add: sample_Expiration time_Second_def)
  moreover have "uuid_Parse sample_ext (uuid_String sample_ext (user_ID sample_user)) =
      Inr (user_ID sample_user)"
    by (simp add: sample_ext_def sample_user_def)
  ultimately show ?thesis
    using sample_GenerateJWS [OF sample_now] by simp
qed


section \<open>Facts about the store\<close>

lemma db_Where_First_Some:
  "db_Where_First ok key cond rows = Some r \<Longrightarrow> ok \<and> r \<in> set rows \<and> cond r"
proof -
  assume found: "db_Where_First ok key cond rows = Some r"
  then have ok: ok
    by (simp add: db_Where_First_def split: if_splits)
  then obtain m ms where ms: "filter cond rows = m # ms" and r: "r = arg_min_list key (m # ms)"
    using found by (auto simp: db_Where_First_def split: list.splits)
  have "arg_min_list key (m # ms) \<in> set (m # ms)"
    by (rule arg_min_list_in) simp
  then have "r \<in> set (filter cond rows)"
    using ms r by simp
  then show ?thesis
    using ok by simp
qed

lemma db_Where_First_None_iff:
  "db_Where_First ok key cond rows = None \<longleftrightarrow> \<not> ok \<or> (\<forall>r\<in>set rows. \<not> cond r)"
proof -
  have "filter cond rows = [] \<longleftrightarrow> (\<forall>r\<in>set rows. \<not> cond r)"
    by (simp add: filter_empty_conv)
  then show ?thesis
    by (cases "filter cond rows") (auto simp: db_Where_First_def)
qed

lemma codes_unique_same_code:
  assumes "codes_unique db"
    and "r \<in> set (authorization_codes db)" and "r' \<in> set (authorization_codes db)"
    and "code_Code r = code_Code r'"
  shows "r = r'"
  using assms by (auto simp: codes_unique_def distinct_map dest: inj_onD)

lemma ValidateAuthorizationCode_no_match:
  assumes "\<forall>r\<in>set (authorization_codes db).
             \<not> (code_Code r = code \<and> code_ClientID r = clientID \<and> now < code_ExpiresAt r)"
  shows "ValidateAuthorizationCode cfg now find_ok delete_ok db code clientID clientSecret =
           (Inl (Errorf ''invalid or expired authorization code''), db)"
proof -
  have "db_Where_First find_ok code_ID
          (\<lambda>r. code_Code r = code \<and> code_ClientID r = clientID \<and> now < code_ExpiresAt r)
          (authorization_codes db) = None"
    using assms by (simp add: db_Where_First_None_iff)
  then show ?thesis
    by (simp add: ValidateAuthorizationCode_def)
qed

lemma ValidateAuthorizationCode_success:
  assumes "ValidateAuthorizationCode cfg now find_ok delete_ok db code clientID clientSecret =
             (Inr authCode, db')"
  shows "authCode \<in> set (authorization_codes db)" and "code_Code authCode = code"
    and "code_ClientID authCode = clientID" and "now < code_ExpiresAt authCode"
    and "clientSecret = ClientSecret cfg" and "db' = db_Delete_code delete_ok authCode db"
proof -
  let ?cond = "\<lambda>r. code_Code r = code \<and> code_ClientID r = clientID \<and> now < code_ExpiresAt r"
  obtain a where a: "db_Where_First find_ok code_ID ?cond (authorization_codes db) = Some a"
    using assms by (cases "db_Where_First find_ok code_ID ?cond (authorization_codes db)")
      (auto simp: ValidateAuthorizationCode_def)
  have res: "clientSecret = ClientSecret cfg \<and> authCode = a \<and>
      db' = db_Delete_code delete_ok a db"
    using assms a by (auto simp: ValidateAuthorizationCode_def split: if_splits)
  show "authCode \<in> set (authorization_codes db)" and "code_Code authCode = code"
    and "code_ClientID authCode = clientID" and "now < code_ExpiresAt authCode"
    using db_Where_First_Some [OF a] res by simp_all
  show "clientSecret = ClientSecret cfg" and "db' = db_Delete_code delete_ok authCode db"
    using res by simp_all
qed

lemma consumed_code_absent:
  assumes "codes_unique db"
    and "ValidateAuthorizationCode cfg now find_ok True db code clientID clientSecret =
           (Inr authCode, db')"
  shows "code \<notin> code_Code ` set (authorization_codes db')"
proof
  assume "code \<in> code_Code ` set (authorization_codes db')"
  then obtain r where r: "r \<in> set (authorization_codes db')" "code_Code r = code"
    by auto
  note s = ValidateAuthorizationCode_success [OF assms(2)]
  have "r \<in> set (authorization_codes db)" and "code_ID r \<noteq> code_ID authCode"
    using r(1) s(6) by (simp_all add: db_Delete_code_def)
  moreover have "r = authCode"
    using assms(1) \<open>r \<in> set (authorization_codes db)\<close> s(1) r(2) s(2)
    by (auto intro: codes_unique_same_code)
  ultimately show False by simp
qed

lemma db_Create_code_unique:
  assumes "codes_unique db" and "db_Create_code env row db = Inr (row', db')"
  shows "codes_unique db'"
  using assms by (auto simp: db_Create_code_def codes_unique_def Let_def split: if_splits)

lemma CreateAuthorizationCode_unique:
  assumes "codes_unique db"
    and "CreateAuthorizationCode random now env db userID clientID scope = Inr (row, db')"
  shows "codes_unique db'"
  using assms
  by (auto simp: CreateAuthorizationCode_def split: sum.splits dest: db_Create_code_unique)

lemma ValidateAuthorizationCode_unique:
  assumes "codes_unique db"
  shows "codes_unique (snd (ValidateAuthorizationCode cfg now find_ok delete_ok db code clientID
           clientSecret))"
  using assms
  by (auto simp: ValidateAuthorizationCode_def db_Delete_code_def codes_unique_def
      distinct_map_filter split: option.splits)

lemma sample_exchange:
  assumes "now < 1700000600 * time_Second"
  shows "ValidateAuthorizationCode sample_oauth now True True sample_db ''c0de'' ''test-client''
           ''test-secret'' = (Inr sample_code, sample_db\<lparr>authorization_codes := []\<rparr>)"
  using assms
  by (simp add: ValidateAuthorizationCode_def db_Where_First_def db_Delete_code_def
      sample_db_def sample_code_def sample_oauth_def)

lemma sample_db_unique: "codes_unique sample_db"
  by (simp add: codes_unique_def sample_db_def)

text \<open>
  The result of \<^verbatim>\<open>o.db.Delete(&authCode)\<close> is dropped: when the store does not execute the
  delete, the exchange succeeds all the same and the record stays in the store.
\<close>

lemma sample_exchange_without_delete:
  assumes "now < 1700000600 * time_Second"
  shows "ValidateAuthorizationCode sample_oauth now True False sample_db ''c0de'' ''test-client''
           ''test-secret'' = (Inr sample_code, sample_db)"
  using assms
  by (simp add: ValidateAuthorizationCode_def db_Where_First_def db_Delete_code_def
      sample_db_def sample_code_def sample_oauth_def)

section \<open>Exchange of an authorization code\<close>

text \<open>
  C3. In a store whose \<^verbatim>\<open>code\<close> column is unique, after one exchange that returned the
  record and whose delete the store executed, every further exchange of the same code
  string (at any time, by any client, with any secret) fails with
  \<^verbatim>\<open>invalid or expired authorization code\<close> and leaves the store as it is.
\<close>

theorem authorization_code_single_use:
  assumes "codes_unique db"
    and "ValidateAuthorizationCode cfg now find_ok True db code clientID clientSecret =
           (Inr authCode, db')"
  shows "ValidateAuthorizationCode cfg now' find_ok' delete_ok' db' code clientID' clientSecret' =
           (Inl (Errorf ''invalid or expired authorization code''), db')"
proof (rule ValidateAuthorizationCode_no_match)
  show "\<forall>r\<in>set (authorization_codes db').
          \<not> (code_Code r = code \<and> code_ClientID r = clientID' \<and> now' < code_ExpiresAt r)"
    using consumed_code_absent [OF assms] by auto
qed

theorem authorization_code_single_use_witness:
  "ValidateAuthorizationCode sample_oauth (1700000000 * time_Second) True True sample_db
     ''c0de'' ''test-client'' ''test-secret'' =
     (Inr sample_code, sample_db\<lparr>authorization_codes := []\<rparr>) \<and>
   ValidateAuthorizationCode sample_oauth (1700000000 * time_Second) True True
     (sample_db\<lparr>authorization_codes := []\<rparr>) ''c0de'' ''test-client'' ''test-secret'' =
     (Inl (Errorf ''invalid or expired authorization code''),
      sample_db\<lparr>authorization_codes := []\<rparr>)"
proof -
  have first: "ValidateAuthorizationCode sample_oauth (1700000000 * time_Second) True True
      sample_db ''c0de'' ''test-client'' ''test-secret'' =
      (Inr sample_code, sample_db\<lparr>authorization_codes := []\<rparr>)"
    by (rule sample_exchange) (simp add: time_Second_def)
  show ?thesis
    using first authorization_code_single_use [OF sample_db_unique first] by simp
qed

text \<open>
  C8. For one and the same call (same code string, client, secret and time), the
  result is the same error \<^verbatim>\<open>invalid or expired authorization code\<close>, with the store
  untouched, in each of three stores: one where the code's record has expired, one
  where no record has that code, and one where the code was consumed by an earlier
  exchange. The caller cannot tell the three causes apart.
\<close>

theorem authorization_code_failures_identical:
  assumes "codes_unique db_expired"
    and "r \<in> set (authorization_codes db_expired)"
    and "code_Code r = code" and "code_ExpiresAt r \<le> now"
    and "code \<notin> code_Code ` set (authorization_codes db_absent)"
    and "codes_unique db0"
    and "ValidateAuthorizationCode cfg now0 find_ok0 True db0 code clientID0 clientSecret0 =
           (Inr authCode, db_used)"
  shows "ValidateAuthorizationCode cfg now find_ok delete_ok db_expired code clientID clientSecret =
           (Inl (Errorf ''invalid or expired authorization code''), db_expired) \<and>
         ValidateAuthorizationCode cfg now find_ok delete_ok db_absent code clientID clientSecret =
           (Inl (Errorf ''invalid or expired authorization code''), db_absent) \<and>
         ValidateAuthorizationCode cfg now find_ok delete_ok db_used code clientID clientSecret =
           (Inl (Errorf ''invalid or expired authorization code''), db_used)"
proof (intro conjI)
  have "\<forall>r'\<in>set (authorization_codes db_expired).
          \<not> (code_Code r' = code \<and> code_ClientID r' = clientID \<and> now < code_ExpiresAt r')"
  proof (intro ballI notI)
    fix r'
    assume r': "r' \<in> set (authorization_codes db_expired)"
      and live: "code_Code r' = code \<and> code_ClientID r' = clientID \<and> now < code_ExpiresAt r'"
    have "r' = r"
      using assms(1) r' assms(2) live assms(3) by (auto intro: codes_unique_same_code)
    then show False
      using live assms(4) by simp
  qed
  then show "ValidateAuthorizationCode cfg now find_ok delete_ok db_expired code clientID
      clientSecret = (Inl (Errorf ''invalid or expired authorization code''), db_expired)"
    by (rule ValidateAuthorizationCode_no_match)
next
  show "ValidateAuthorizationCode cfg now find_ok delete_ok db_absent code clientID clientSecret =
      (Inl (Errorf ''invalid or expired authorization code''), db_absent)"
    using assms(5) by (intro ValidateAuthorizationCode_no_match) auto
next
  show "ValidateAuthorizationCode cfg now find_ok delete_ok db_used code clientID clientSecret =
      (Inl (Errorf ''invalid or expired authorization code''), db_used)"
    using consumed_code_absent [OF assms(6,7)] by (intro ValidateAuthorizationCode_no_match) auto
qed

theorem authorization_code_failures_identical_witness:
  "ValidateAuthorizationCode sample_oauth (1700000601 * time_Second) True True sample_db
     ''c0de'' ''test-client'' ''test-secret'' =
     (Inl (Errorf ''invalid or expired authorization code''), sample_db) \<and>
   ValidateAuthorizationCode sample_oauth (1700000601 * time_Second) True True
     (sample_db\<lparr>authorization_codes := []\<rparr>) ''c0de'' ''test-client'' ''test-secret'' =
     (Inl (Errorf ''invalid or expired authorization code''),
      sample_db\<lparr>authorization_codes := []\<rparr>)"
proof -
  have mem: "sample_code \<in> set (authorization_codes sample_db)"
    by (simp add: sample_db_def)
  have code: "code_Code sample_code = ''c0de''"
    by (simp add: sample_code_def)
  have late: "code_ExpiresAt sample_code \<le> 1700000601 * time_Second"
    by (simp add: sample_code_def time_Second_def)
  have absent: "''c0de'' \<notin> code_Code ` set (authorization_codes (sample_db\<lparr>authorization_codes := []\<rparr>))"
    by simp
  have used: "ValidateAuthorizationCode sample_oauth (1700000000 * time_Second) True True
      sample_db ''c0de'' ''test-client'' ''test-secret'' =
      (Inr sample_code, sample_db\<lparr>authorization_codes := []\<rparr>)"
    by (rule sample_exchange) (simp add: time_Second_def)
  show ?thesis
    using authorization_code_failures_identical
      [OF sample_db_unique mem code late absent sample_db_unique used,
        of "True" "True" "''test-client''" "''test-secret''"]
    by simp
qed

text \<open>
  C9. For a live code (a record with this code string and client whose expiry is ahead),
  an exchange with a client secret other than the configured one fails with
  \<^verbatim>\<open>invalid client secret\<close> and leaves the store as it is; an exchange with the
  configured secret made afterwards, while the record is still live, returns a record
  with this code and client.
\<close>

theorem wrong_client_secret_keeps_code:
  assumes "r \<in> set (authorization_codes db)"
    and "code_Code r = code" and "code_ClientID r = clientID" and "now < code_ExpiresAt r"
    and "clientSecret \<noteq> ClientSecret cfg"
  shows "ValidateAuthorizationCode cfg now True delete_ok db code clientID clientSecret =
           (Inl (Errorf ''invalid client secret''), db) \<and>
         (\<forall>now'. now' < code_ExpiresAt r \<longrightarrow>
            (\<exists>a. ValidateAuthorizationCode cfg now' True True
                    (snd (ValidateAuthorizationCode cfg now True delete_ok db code clientID
                            clientSecret))
                    code clientID (ClientSecret cfg) =
                    (Inr a, db_Delete_code True a db) \<and>
                  code_Code a = code \<and> code_ClientID a = clientID \<and> now' < code_ExpiresAt a))"
proof -
  have live: "\<exists>a. db_Where_First True code_ID
      (\<lambda>r. code_Code r = code \<and> code_ClientID r = clientID \<and> t < code_ExpiresAt r)
      (authorization_codes db) = Some a" if "t < code_ExpiresAt r" for t
  proof (rule ccontr)
    assume "\<not> ?thesis"
    then have "db_Where_First True code_ID
        (\<lambda>r. code_Code r = code \<and> code_ClientID r = clientID \<and> t < code_ExpiresAt r)
        (authorization_codes db) = None"
      by simp
    then show False
      using assms(1-3) that by (auto simp: db_Where_First_None_iff)
  qed
  have wrong: "ValidateAuthorizationCode cfg now True delete_ok db code clientID clientSecret =
      (Inl (Errorf ''invalid client secret''), db)"
    using live [OF assms(4)] assms(5) by (auto simp: ValidateAuthorizationCode_def)
  have again: "\<exists>a. ValidateAuthorizationCode cfg now' True True db code clientID (ClientSecret cfg) =
        (Inr a, db_Delete_code True a db) \<and>
      code_Code a = code \<and> code_ClientID a = clientID \<and> now' < code_ExpiresAt a"
    if still: "now' < code_ExpiresAt r" for now'
  proof -
    obtain a where a: "db_Where_First True code_ID
        (\<lambda>r. code_Code r = code \<and> code_ClientID r = clientID \<and> now' < code_ExpiresAt r)
        (authorization_codes db) = Some a"
      using live [OF still] by blast
    have "ValidateAuthorizationCode cfg now' True True db code clientID (ClientSecret cfg) =
        (Inr a, db_Delete_code True a db)"
      using a by (simp add: ValidateAuthorizationCode_def)
    then show ?thesis
      using db_Where_First_Some [OF a] by blast
  qed
  show ?thesis
    using wrong again by simp
qed

theorem wrong_client_secret_keeps_code_witness:
  "ValidateAuthorizationCode sample_oauth (1700000000 * time_Second) True True sample_db
     ''c0de'' ''test-client'' ''guess'' = (Inl (Errorf ''invalid client secret''), sample_db) \<and>
   (\<exists>a. ValidateAuthorizationCode sample_oauth (1700000001 * time_Second) True True sample_db
           ''c0de'' ''test-client'' ''test-secret'' = (Inr a, db_Delete_code True a sample_db) \<and>
         code_Code a = ''c0de'')"
proof -
  have mem: "sample_code \<in> set (authorization_codes sample_db)"
    by (simp add: sample_db_def)
  have code: "code_Code sample_code = ''c0de''" and client: "code_ClientID sample_code = ''test-client''"
    by (simp_all add: sample_code_def)
  have early: "1700000000 * time_Second < code_ExpiresAt sample_code"
    and still: "1700000001 * time_Second < code_ExpiresAt sample_code"
    by (simp_all add: sample_code_def time_Second_def)
  have wrong: "''guess'' \<noteq> ClientSecret sample_oauth"
    by (simp add: sample_oauth_def)
  have secret: "ClientSecret sample_oauth = ''test-secret''"
    by (simp add: sample_oauth_def)
  show ?thesis
    using wrong_client_secret_keeps_code [OF mem code client early wrong, of True] still secret
    by auto
qed


section \<open>Authorization of a request\<close>

lemma sample_token_no_space: "CHR '' '' \<notin> set (sample_token pj)"
  by (simp add: sample_token_def signing_input_def sign_def EncodeToString_no_space)

lemma sample_header_split:
  "strings_Split (''Bearer '' @ sample_token pj) (CHR '' '') = [''Bearer'', sample_token pj]"
  using strings_Split_append_sep [of "CHR '' ''" "''Bearer''" "sample_token pj"]
    strings_Split_sep_free_whole [OF sample_token_no_space [of pj]]
  by simp

lemma sample_token_valid:
  assumes "now \<le> 1700086400 * time_Second"
  shows "ValidateJWS sample_ext sample_cfg now (sample_token sample_payload_json) =
           Inr \<lparr>UserID = sample_uuid, Email = [], Scope = sample_scope\<rparr>"
  using assms by (simp add: sample_ValidateJWS sample_after_signature)

text \<open>
  C7. When the \<^verbatim>\<open>Authorization\<close> header is \<^verbatim>\<open>Bearer <token>\<close>, the token passes
  \<^verbatim>\<open>ValidateJWS\<close>, and the store holds no record with exactly this token string whose
  expiry is ahead of the store's clock, \<^verbatim>\<open>Authenticate\<close> answers 401 with
  \<^verbatim>\<open>Token not found or expired\<close>, aborts the chain, binds nothing to the context and does
  not call the next handler.
\<close>

theorem Authenticate_rejects_unknown_token:
  assumes "strings_Split authHeader (CHR '' '') = [''Bearer'', tokenString]"
    and "ValidateJWS L cfg now tokenString = Inr claims"
    and "\<forall>r\<in>set (access_tokens db).
           \<not> (token_Token r = tokenString \<and> db_now < token_ExpiresAt r)"
  shows "Authenticate L cfg now db_now token_ok user_ok db authHeader =
           abort_JSON StatusUnauthorized ''Token not found or expired'' \<and>
         written (Authenticate L cfg now db_now token_ok user_ok db authHeader) =
           Some (401, ''Token not found or expired'') \<and>
         aborted (Authenticate L cfg now db_now token_ok user_ok db authHeader) \<and>
         \<not> next_called (Authenticate L cfg now db_now token_ok user_ok db authHeader) \<and>
         keys (Authenticate L cfg now db_now token_ok user_ok db authHeader) = Map.empty"
proof -
  have "authHeader \<noteq> []"
    using assms(1) by auto
  moreover have "db_Where_First token_ok token_ID
      (\<lambda>r. token_Token r = tokenString \<and> db_now < token_ExpiresAt r) (access_tokens db) = None"
    using assms(3) by (simp add: db_Where_First_None_iff)
  ultimately have "Authenticate L cfg now db_now token_ok user_ok db authHeader =
      abort_JSON StatusUnauthorized ''Token not found or expired''"
    using assms(1,2) by (simp add: Authenticate_def)
  then show ?thesis
    by (simp add: abort_JSON_def StatusUnauthorized_def)
qed

theorem Authenticate_rejects_unknown_token_witness:
  "ValidateJWS sample_ext sample_cfg (1700000001 * time_Second)
     (sample_token sample_payload_json) =
     Inr \<lparr>UserID = sample_uuid, Email = [], Scope = sample_scope\<rparr> \<and>
   Authenticate sample_ext sample_cfg (1700000001 * time_Second) (1700000001 * time_Second)
     True True sample_db (''Bearer '' @ sample_token sample_payload_json) =
     \<lparr>written = Some (401, ''Token not found or expired''), aborted = True,
      keys = Map.empty, next_called = False\<rparr>"
proof -
  have valid: "ValidateJWS sample_ext sample_cfg (1700000001 * time_Second)
      (sample_token sample_payload_json) =
      Inr \<lparr>UserID = sample_uuid, Email = [], Scope = sample_scope\<rparr>"
    by (rule sample_token_valid) (simp add: time_Second_def)
  have none: "\<forall>r\<in>set (access_tokens sample_db).
      \<not> (token_Token r = sample_token sample_payload_json \<and>
         1700000001 * time_Second < token_ExpiresAt r)"
    by (simp add: sample_db_def)
  show ?thesis
    using valid Authenticate_rejects_unknown_token [OF sample_header_split valid none, of True True]
    by (simp add: abort_JSON_def StatusUnauthorized_def)
qed

text \<open>With the record in the store and the user known, the same request goes through.\<close>

lemma sample_Authenticate_accepts:
  assumes "row = \<lparr>token_ID = 42, token_Token = sample_token sample_payload_json,
             token_UserID = sample_uuid, token_ClientID = ''test-client'',
             token_Scope = sample_scope, token_ExpiresAt = 1700086400 * time_Second,
             token_CreatedAt = 1700000000 * time_Second\<rparr>"
  shows "Authenticate sample_ext sample_cfg (1700000001 * time_Second) (1700000001 * time_Second)
           True True (sample_db\<lparr>access_tokens := [row]\<rparr>)
           (''Bearer '' @ sample_token sample_payload_json) =
         \<lparr>written = None, aborted = False,
          keys = [''user'' \<mapsto> CUser sample_user,
                  ''claims'' \<mapsto> CClaims \<lparr>UserID = sample_uuid, Email = [], Scope = sample_scope\<rparr>,
                  ''access_token'' \<mapsto> CAccessToken row],
          next_called = True\<rparr>"
proof -
  have valid: "ValidateJWS sample_ext sample_cfg (1700000001 * time_Second)
      (sample_token sample_payload_json) =
      Inr \<lparr>UserID = sample_uuid, Email = [], Scope = sample_scope\<rparr>"
    by (rule sample_token_valid) (simp add: time_Second_def)
  have nonempty: "''Bearer '' @ sample_token sample_payload_json \<noteq> []"
    by simp
  show ?thesis
    using sample_header_split [of sample_payload_json] valid nonempty
    by (simp add: Authenticate_def db_Where_First_def sample_db_def assms sample_user_def
        time_Second_def del: append.simps)
qed


section \<open>Expiry of the token and of its record\<close>

lemma Load_Expiration_in_range:
  assumes "- (2 ^ 63) \<le> hours * time_Hour" and "hours * time_Hour < 2 ^ 63"
  shows "Load_Expiration hours = hours * time_Hour"
proof -
  have "Load_Expiration hours = sint (word_of_int (hours * time_Hour) :: 64 word)"
    by (simp only: Load_Expiration_def of_int_mult)
  also have "\<dots> = signed_take_bit (LENGTH(64) - 1) (hours * time_Hour)"
    by (rule sint_sbintrunc')
  also have "\<dots> = signed_take_bit 63 (hours * time_Hour)"
    by simp
  also have "\<dots> = hours * time_Hour"
    using assms by (intro signed_take_bit_int_eq_self) simp_all
  finally show ?thesis .
qed

lemma Load_Expiration_default: "Load_Expiration 24 = Expiration sample_cfg"
  using Load_Expiration_in_range [of 24]
  by (simp add: sample_cfg_def time_Hour_def time_Minute_def time_Second_def)

lemma Load_Expiration_1: "Load_Expiration 1 = 3600 * time_Second"
  using Load_Expiration_in_range [of 1]
  by (simp add: time_Hour_def time_Minute_def time_Second_def)

lemma CreateAccessToken_success:
  assumes "CreateAccessToken L cfg now_jws now_rec env db userID clientID scope = Inr (row, db')"
  shows "GenerateJWS L cfg now_jws
           \<lparr>user_ID = userID, user_Email = [], user_PasswordHash = [],
            user_CreatedAt = zero_Time, user_UpdatedAt = zero_Time\<rparr> scope =
           Inr (token_Token row)"
    and "token_ExpiresAt row = time_Add now_rec (24 * time_Hour)"
    and "token_UserID row = userID" and "token_Scope row = scope"
    and "token_ClientID row = clientID"
  using assms
  by (auto simp: CreateAccessToken_def db_Create_token_def Let_def split: sum.splits if_splits)

lemma jws_payload_exp:
  "jws_payload L cfg now user scope ''exp'' =
     Some (GInt64 (time_to_Unix (time_Add now (Expiration cfg))))"
  by (simp add: jws_payload_def)

lemma sample_CreateAccessToken:
  assumes "json_Marshal sample_ext (jws_payload sample_ext cfg now_jws sample_user sample_scope) =
             Inr pj"
  shows "CreateAccessToken sample_ext cfg now_jws now_rec
           \<lparr>executes = True, fresh_ID = 42, stamp = now_rec\<rparr> sample_db sample_uuid
           ''test-client'' sample_scope =
         Inr (\<lparr>token_ID = 42, token_Token = signing_input pj @ ''.'' @ sign sample_ext cfg (signing_input pj),
               token_UserID = sample_uuid, token_ClientID = ''test-client'',
               token_Scope = sample_scope,
               token_ExpiresAt = time_Add now_rec (24 * time_Hour),
               token_CreatedAt = now_rec\<rparr>,
              sample_db\<lparr>access_tokens :=
                [\<lparr>token_ID = 42,
                  token_Token = signing_input pj @ ''.'' @ sign sample_ext cfg (signing_input pj),
                  token_UserID = sample_uuid, token_ClientID = ''test-client'',
                  token_Scope = sample_scope,
                  token_ExpiresAt = time_Add now_rec (24 * time_Hour),
                  token_CreatedAt = now_rec\<rparr>]\<rparr>)"
proof -
  have "GenerateJWS sample_ext cfg now_jws sample_user sample_scope =
      Inr (signing_input pj @ ''.'' @ sign sample_ext cfg (signing_input pj))"
    using GenerateJWS_shape [OF sample_Marshal_header assms] by (simp add: signing_input_def)
  then show ?thesis
    by (simp add: CreateAccessToken_def db_Create_token_def Let_def sample_db_def
        sample_user_def [symmetric])
qed

text \<open>
  What \<^verbatim>\<open>CreateAccessToken\<close> does with the two expiries. Whenever it succeeds, the token
  it stores is the one \<^verbatim>\<open>GenerateJWS\<close> made for that user, and subject and scope of the
  payload are those of the record. The expiry of the payload is \<open>\<lfloor>now + Expiration\<rfloor>\<close> in
  whole seconds at the clock reading of \<^verbatim>\<open>GenerateJWS\<close>; the expiry of the record is the
  later clock reading of \<^verbatim>\<open>CreateAccessToken\<close> plus a fixed 24 hours. With the configured
  expiration at 24 hours (the default of \<^verbatim>\<open>Load\<close>) and the two readings within the same
  second, the payload's \<^verbatim>\<open>exp\<close> is the record's \<^verbatim>\<open>ExpiresAt\<close> in Unix seconds.
\<close>

lemma CreateAccessToken_expiry_default_same_second:
  assumes "Expiration cfg = 24 * time_Hour"
    and "time_to_Unix now_jws = time_to_Unix now_rec"
    and "CreateAccessToken L cfg now_jws now_rec env db userID clientID scope = Inr (row, db')"
  shows "\<exists>user. user_ID user = userID \<and>
           GenerateJWS L cfg now_jws user scope = Inr (token_Token row) \<and>
           jws_payload L cfg now_jws user scope ''exp'' =
             Some (GInt64 (time_to_Unix (token_ExpiresAt row))) \<and>
           jws_payload L cfg now_jws user scope ''sub'' =
             Some (GString (uuid_String L (token_UserID row))) \<and>
           jws_payload L cfg now_jws user scope ''scope'' = Some (GString (token_Scope row))"
proof -
  let ?user = "\<lparr>user_ID = userID, user_Email = [], user_PasswordHash = [],
                user_CreatedAt = zero_Time, user_UpdatedAt = zero_Time\<rparr>"
  note s = CreateAccessToken_success [OF assms(3)]
  have day: "24 * time_Hour = 86400 * time_Second"
    by (simp add: time_Hour_def time_Minute_def)
  have "time_to_Unix (time_Add now_jws (Expiration cfg)) =
      time_to_Unix (time_Add now_rec (24 * time_Hour))"
    using assms(1,2) by (simp add: day Unix_after_whole_seconds)
  then have "jws_payload L cfg now_jws ?user scope ''exp'' =
      Some (GInt64 (time_to_Unix (token_ExpiresAt row)))"
    using s(2) by (simp add: jws_payload_exp)
  moreover have "jws_payload L cfg now_jws ?user scope ''sub'' =
      Some (GString (uuid_String L (token_UserID row)))"
    and "jws_payload L cfg now_jws ?user scope ''scope'' = Some (GString (token_Scope row))"
    using s(3,4) by (simp_all add: jws_payload_def)
  ultimately show ?thesis
    using s(1) by (intro exI [of _ ?user]) simp
qed

text \<open>
  The two clock readings are separate calls of \<^verbatim>\<open>time.Now()\<close>: with the default 24 hours,
  a token signed at 1700000000.9 s whose record is made at 1700000001.1 s has \<^verbatim>\<open>exp\<close>
  1700086400 and a record that expires in second 1700086401.
\<close>

lemma sample_expiry_across_a_second:
  "\<exists>row db'.
      CreateAccessToken sample_ext (sample_cfg\<lparr>Expiration := Load_Expiration 24\<rparr>)
        (1700000000 * time_Second + 900000000) (1700000001 * time_Second + 100000000)
        \<lparr>executes = True, fresh_ID = 42, stamp = 1700000001 * time_Second + 100000000\<rparr>
        sample_db sample_uuid ''test-client'' sample_scope = Inr (row, db') \<and>
      jws_payload sample_ext (sample_cfg\<lparr>Expiration := Load_Expiration 24\<rparr>)
        (1700000000 * time_Second + 900000000) sample_user sample_scope ''exp'' =
        Some (GInt64 1700086400) \<and>
      time_to_Unix (token_ExpiresAt row) = 1700086401"
proof -
  let ?cfg = "sample_cfg\<lparr>Expiration := Load_Expiration 24\<rparr>"
  let ?n1 = "1700000000 * time_Second + 900000000"
  let ?n2 = "1700000001 * time_Second + 100000000"
  have cfg: "?cfg = sample_cfg"
    by (simp add: Load_Expiration_default)
  have n1: "time_to_Unix ?n1 = 1700000000"
    by (simp add: time_to_Unix_def time_Second_def)
  from sample_CreateAccessToken [OF sample_Marshal_payload [OF n1], of ?n2]
  show ?thesis
    using sample_exp [OF n1]
    by (simp add: cfg jws_payload_exp time_to_Unix_def time_Add_def time_Hour_def
        time_Minute_def time_Second_def)
qed

text \<open>
  C1. The expiry embedded in the token should be the expiry of its record for every
  configured JWT expiration. The code does not do that: \<^verbatim>\<open>GenerateJWS\<close> reads
  \<^verbatim>\<open>config.Expiration\<close>, while \<^verbatim>\<open>CreateAccessToken\<close> adds a literal \<^verbatim>\<open>24 * time.Hour\<close>. With
  \<^verbatim>\<open>JWT_EXPIRATION_HOURS=1\<close>, a code exchange at 1700000000.5 s (both clock readings)
  succeeds with a token whose payload expires at second 1700003600 and a record that
  expires at second 1700086400, 23 hours later.
\<close>

theorem CreateAccessToken_ignores_configured_expiration:
  "\<exists>row db'.
      CreateAccessToken sample_ext (sample_cfg\<lparr>Expiration := Load_Expiration 1\<rparr>)
        (1700000000 * time_Second + 500000000) (1700000000 * time_Second + 500000000)
        \<lparr>executes = True, fresh_ID = 42, stamp = 1700000000 * time_Second + 500000000\<rparr>
        sample_db sample_uuid ''test-client'' sample_scope = Inr (row, db') \<and>
      token_Token row = signing_input sample_payload_1h_json @ ''.'' @
        sign sample_ext (sample_cfg\<lparr>Expiration := Load_Expiration 1\<rparr>)
          (signing_input sample_payload_1h_json) \<and>
      jws_payload sample_ext (sample_cfg\<lparr>Expiration := Load_Expiration 1\<rparr>)
        (1700000000 * time_Second + 500000000) sample_user sample_scope ''exp'' =
        Some (GInt64 1700003600) \<and>
      token_ExpiresAt row = 1700086400 * time_Second + 500000000 \<and>
      time_to_Unix (token_ExpiresAt row) = 1700086400"
proof -
  let ?cfg = "sample_cfg\<lparr>Expiration := Load_Expiration 1\<rparr>"
  let ?now = "1700000000 * time_Second + 500000000"
  have e: "time_to_Unix (time_Add ?now (Expiration ?cfg)) = 1700003600"
    using Unix_after_whole_seconds [of ?now 3600] sample_now by (simp add: Load_Expiration_1)
  have "has_fields (jws_payload sample_ext ?cfg ?now sample_user sample_scope)
      (sample_fields 1700003600)"
    using sample_now e by (rule sample_payload_fields) (simp_all add: sample_cfg_def)
  moreover have "\<not> has_fields (jws_payload sample_ext ?cfg ?now sample_user sample_scope)
      (sample_fields 1700086400)"
    using e by (simp add: has_fields_def sample_fields_def jws_payload_def)
  ultimately have "json_Marshal sample_ext (jws_payload sample_ext ?cfg ?now sample_user sample_scope) =
      Inr sample_payload_1h_json"
    using sample_payload_not_header [of sample_ext ?cfg ?now sample_user sample_scope]
    by (simp add: sample_ext_def sample_Marshal_def)
  from sample_CreateAccessToken [OF this, of ?now]
  show ?thesis
    using e
    by (simp add: jws_payload_exp time_to_Unix_def time_Add_def time_Hour_def time_Minute_def
        time_Second_def)
qed

end
